theory Spec2Isabelle
  imports Complex_Main "HOL-Library.Word"
begin

unbundle bit_operations_syntax

section \<open>Machine types\<close>

type_synonym u8 = "8 word"
type_synonym u16 = "16 word"

section \<open>Undefined behaviour as an error value\<close>

text \<open>
  An array access outside the array, a division by zero and an \<^verbatim>\<open>int\<close> result that
  the type cannot hold are undefined behaviour in C. The model stops there with an error
  that names the cause.
\<close>

datatype error =
  Report_ids_index_out_of_bounds int
  | Fingers_index_out_of_bounds nat
  | Division_by_zero
  | Signed_overflow

definition report_ids_at :: "u16 list \<Rightarrow> int \<Rightarrow> error + u16" where
  "report_ids_at ids i =
     (if 0 \<le> i \<and> i < int (length ids) then Inr (ids ! nat i)
      else Inl (Report_ids_index_out_of_bounds i))"

definition divide :: "nat \<Rightarrow> nat \<Rightarrow> error + nat" where
  "divide a b = (if b = 0 then Inl Division_by_zero else Inr (a div b))"

section \<open>Rounding macros (maxtouch.c, lines 5-7)\<close>

text \<open>
  The macros are expanded on \<^verbatim>\<open>int\<close> operands (\<^verbatim>\<open>cpi\<close> is a \<^verbatim>\<open>uint16_t\<close>, promoted;
  the distance is an integer constant of the header), so every operation is one of C's
  \<^verbatim>\<open>int\<close>, taken as 32 bits wide: a result outside the range of the type is a signed
  overflow, and the division truncates toward zero.
\<close>

definition int_value :: "int \<Rightarrow> error + int" where
  "int_value v = (if - (2 ^ 31) \<le> v \<and> v < 2 ^ 31 then Inr v else Inl Signed_overflow)"

definition int_divide :: "int \<Rightarrow> int \<Rightarrow> error + int" where
  "int_divide a b =
     (if b = 0 then Inl Division_by_zero
      else if (a < 0) = (b < 0) then int_value (\<bar>a\<bar> div \<bar>b\<bar>)
      else int_value (- (\<bar>a\<bar> div \<bar>b\<bar>)))"

text \<open>
  \<^verbatim>\<open>DIVIDE_UNSIGNED_ROUND(numerator, denominator)\<close> is
  \<^verbatim>\<open>((numerator) + ((denominator) / 2)) / (denominator)\<close>.
\<close>

definition DIVIDE_UNSIGNED_ROUND :: "int \<Rightarrow> int \<Rightarrow> error + int" where
  "DIVIDE_UNSIGNED_ROUND numerator denominator =
     (case int_divide denominator 2 of
        Inl e \<Rightarrow> Inl e
      | Inr half \<Rightarrow>
          (case int_value (numerator + half) of
             Inl e \<Rightarrow> Inl e
           | Inr shifted \<Rightarrow> int_divide shifted denominator))"

text \<open>\<^verbatim>\<open>DIVIDE_UNSIGNED_ROUND((cpi) * (dist_in_mm) * 10, 254)\<close>.\<close>

definition CPI_TO_SAMPLES :: "int \<Rightarrow> int \<Rightarrow> error + int" where
  "CPI_TO_SAMPLES cpi dist_in_mm =
     (case int_value (cpi * dist_in_mm) of
        Inl e \<Rightarrow> Inl e
      | Inr product \<Rightarrow>
          (case int_value (product * 10) of
             Inl e \<Rightarrow> Inl e
           | Inr numerator \<Rightarrow> DIVIDE_UNSIGNED_ROUND numerator 254))"

text \<open>\<^verbatim>\<open>DIVIDE_UNSIGNED_ROUND((samples) * 254, (dist_in_mm) * 10)\<close>.\<close>

definition SAMPLES_TO_CPI :: "int \<Rightarrow> int \<Rightarrow> error + int" where
  "SAMPLES_TO_CPI samples dist_in_mm =
     (case int_value (samples * 254) of
        Inl e \<Rightarrow> Inl e
      | Inr numerator \<Rightarrow>
          (case int_value (dist_in_mm * 10) of
             Inl e \<Rightarrow> Inl e
           | Inr denominator \<Rightarrow> DIVIDE_UNSIGNED_ROUND numerator denominator))"

text \<open>
  The rounding rule in the words of the specification: the nearest integer, a tie going
  away from zero.
\<close>

definition round_half_away_from_zero :: "real \<Rightarrow> int" where
  "round_half_away_from_zero x =
     (if x < 0 then - \<lfloor>\<bar>x\<bar> + 1 / 2\<rfloor> else \<lfloor>\<bar>x\<bar> + 1 / 2\<rfloor>)"

section \<open>What the missing header declares\<close>

text \<open>
  \<^verbatim>\<open>maxtouch.h\<close> is not part of the sources. The constants and record sizes it
  declares are parameters of the model: every function takes a value \<open>h\<close> of this record.
  \<open>SUP_tag\<close> is the header's \<^verbatim>\<open>SUP\<close>. \<open>DIGITIZER_INVERT_X\<close> says whether that
  preprocessor symbol is defined.
\<close>

record maxtouch_h =
  MXT_REG_INFORMATION_BLOCK :: u16
  sizeof_mxt_information_block :: nat
  sizeof_mxt_object_table_element :: nat
  T7_CFG_ACTVPIPEEN :: int
  T7_CFG_IDLEPIPEEN :: int
  T100_CTRL_RPTEN :: int
  T100_CTRL_ENABLE :: int
  T100_CFG_SWITCHXY :: int
  T100_CFG_INVERTY :: int
  DIGITIZER_INVERT_X :: bool
  MXT_SENSOR_WIDTH_MM :: nat
  MXT_SENSOR_HEIGHT_MM :: nat
  DOWN :: int
  UP :: int
  UNSUP :: int
  DOWNUP :: int
  SUP_tag :: int
  DOWNSUP :: int

definition NUM_FINGERS :: nat where
  "NUM_FINGERS = 5"

definition MXT_DEFAULT_DPI :: u16 where
  "MXT_DEFAULT_DPI = 600"

definition MXT_TOUCH_THRESHOLD :: int where
  "MXT_TOUCH_THRESHOLD = 18"

definition MXT_GAIN :: int where
  "MXT_GAIN = 4"

definition MXT_DX_GAIN :: int where
  "MXT_DX_GAIN = 255"

text \<open>
  The records read from the chip. The header fixes their members; the members the source
  names are modelled, each capability-table member as one byte (the wire format combines
  the address from two separate 8-bit parts). \<open>type_id\<close> is the member \<^verbatim>\<open>type\<close>.
\<close>

record mxt_information_block =
  family_id :: u8
  variant_id :: u8
  version :: u8
  build :: u8
  matrix_x_size :: u8
  matrix_y_size :: u8
  num_objects :: u8

record mxt_object_table_element =
  type_id :: u8
  position_ls_byte :: u8
  position_ms_byte :: u8
  size_minus_one :: u8
  instances_minus_one :: u8
  report_ids_per_instance :: u8

record mxt_message_count =
  count :: u8

text \<open>
  \<open>data\<close> is the payload array of an event record. The source reads \<open>data[0]\<close> to
  \<open>data[4]\<close> of a zero-initialised record; \<open>data_at\<close> reads a byte the transport did
  not deliver as that zero.
\<close>

record mxt_message =
  report_id :: u8
  data :: "u8 list"

definition data_at :: "mxt_message \<Rightarrow> nat \<Rightarrow> u8" where
  "data_at message k = (if k < length (data message) then data message ! k else 0)"

text \<open>
  The configuration records. Their members hold the assigned value before the narrowing
  conversion to the member's type, which the header fixes. \<open>other_members\<close> stands for the
  bytes of the members of the touch record that \<^verbatim>\<open>write_configuration\<close> never assigns.
\<close>

record mxt_gen_powerconfig_t7 =
  idleacqint :: int
  actacqint :: int
  actv2idelto :: int
  cfg :: int

record mxt_touch_multiscreen_t100 =
  ctrl :: int
  cfg1 :: int
  scraux :: int
  numtch :: int
  xsize :: int
  ysize :: int
  xpitch :: int
  ypitch :: int
  gain :: int
  dxgain :: int
  tchthr :: int
  mrgthr :: int
  mrghyst :: int
  movsmooth :: int
  movfilter :: int
  movhysti :: int
  movhystn :: int
  xrange :: int
  yrange :: int
  other_members :: "nat \<Rightarrow> u8"

text \<open>The zero-initialised records (\<^verbatim>\<open>= {0}\<close> and \<^verbatim>\<open>= {}\<close> in the source).\<close>

definition zero_information_block :: mxt_information_block where
  "zero_information_block =
     \<lparr>family_id = 0, variant_id = 0, version = 0, build = 0, matrix_x_size = 0,
      matrix_y_size = 0, num_objects = 0\<rparr>"

definition zero_object_table_element :: mxt_object_table_element where
  "zero_object_table_element =
     \<lparr>type_id = 0, position_ls_byte = 0, position_ms_byte = 0, size_minus_one = 0,
      instances_minus_one = 0, report_ids_per_instance = 0\<rparr>"

definition zero_message_count :: mxt_message_count where
  "zero_message_count = \<lparr>count = 0\<rparr>"

definition zero_message :: mxt_message where
  "zero_message = \<lparr>report_id = 0, data = []\<rparr>"

definition zero_powerconfig_t7 :: mxt_gen_powerconfig_t7 where
  "zero_powerconfig_t7 = \<lparr>idleacqint = 0, actacqint = 0, actv2idelto = 0, cfg = 0\<rparr>"

definition zero_multiscreen_t100 :: mxt_touch_multiscreen_t100 where
  "zero_multiscreen_t100 =
     \<lparr>ctrl = 0, cfg1 = 0, scraux = 0, numtch = 0, xsize = 0, ysize = 0, xpitch = 0,
      ypitch = 0, gain = 0, dxgain = 0, tchthr = 0, mrgthr = 0, mrghyst = 0, movsmooth = 0,
      movfilter = 0, movhysti = 0, movhystn = 0, xrange = 0, yrange = 0,
      other_members = (\<lambda>k. 0)\<rparr>"

section \<open>The transport\<close>

text \<open>
  \<^verbatim>\<open>I2C_Read\<close> and \<^verbatim>\<open>I2C_Write\<close> belong to the transport, outside the sources. The
  model threads a value of type \<open>i2c\<close> through every call. It holds what the transport
  will answer, one queue per kind of record read (\<open>None\<close> is a failed transfer) and
  one of the statuses of the writes (a transfer on an exhausted queue fails), and the
  \<open>trace\<close> of what the driver did: bus reads and writes with their register address,
  and the diagnostics it printed. A failed read leaves the caller's buffer as it was. The
  device address \<^verbatim>\<open>MXT336UD_ADDRESS\<close> is the same in every call and is left out.
\<close>

datatype i2c_status = OK | FAILED

datatype struct_name =
  Information_block | Object_table_element | Message_count | Message | Multiscreen_t100

datatype write_payload =
  Write_t7 mxt_gen_powerconfig_t7
  | Write_zero_t8
  | Write_zero_t46
  | Write_t100 mxt_touch_multiscreen_t100

datatype diagnostic =
  Found_MXT mxt_information_block
  | Failed_to_read_object_table_element
  | Failed_to_read_object_table
  | T100_Configuration_failed
  | Unhandled_ID u8 u16 u16 u16

datatype io_event =
  Bus_read u16 struct_name
  | Bus_write u16 write_payload
  | Printed diagnostic

record i2c =
  information_replies :: "mxt_information_block option list"
  object_replies :: "mxt_object_table_element option list"
  count_replies :: "mxt_message_count option list"
  message_replies :: "mxt_message option list"
  t100_replies :: "mxt_touch_multiscreen_t100 option list"
  write_replies :: "i2c_status list"
  trace :: "io_event list"

fun transfer :: "'a option list \<Rightarrow> 'a \<Rightarrow> (i2c_status \<times> 'a) \<times> 'a option list" where
  "transfer [] buffer = ((FAILED, buffer), [])"
| "transfer (None # rest) buffer = ((FAILED, buffer), rest)"
| "transfer (Some v # rest) buffer = ((OK, v), rest)"

definition printf :: "i2c \<Rightarrow> diagnostic \<Rightarrow> i2c" where
  "printf io d = io\<lparr>trace := trace io @ [Printed d]\<rparr>"

definition I2C_Read_information ::
  "i2c \<Rightarrow> u16 \<Rightarrow> mxt_information_block \<Rightarrow> (i2c_status \<times> mxt_information_block) \<times> i2c" where
  "I2C_Read_information io address buffer =
     (case transfer (information_replies io) buffer of
        (r, rest) \<Rightarrow>
          (r, io\<lparr>information_replies := rest,
                 trace := trace io @ [Bus_read address Information_block]\<rparr>))"

definition I2C_Read_object ::
  "i2c \<Rightarrow> u16 \<Rightarrow> mxt_object_table_element \<Rightarrow> (i2c_status \<times> mxt_object_table_element) \<times> i2c" where
  "I2C_Read_object io address buffer =
     (case transfer (object_replies io) buffer of
        (r, rest) \<Rightarrow>
          (r, io\<lparr>object_replies := rest,
                 trace := trace io @ [Bus_read address Object_table_element]\<rparr>))"

definition I2C_Read_count ::
  "i2c \<Rightarrow> u16 \<Rightarrow> mxt_message_count \<Rightarrow> (i2c_status \<times> mxt_message_count) \<times> i2c" where
  "I2C_Read_count io address buffer =
     (case transfer (count_replies io) buffer of
        (r, rest) \<Rightarrow>
          (r, io\<lparr>count_replies := rest,
                 trace := trace io @ [Bus_read address Message_count]\<rparr>))"

definition I2C_Read_message ::
  "i2c \<Rightarrow> u16 \<Rightarrow> mxt_message \<Rightarrow> (i2c_status \<times> mxt_message) \<times> i2c" where
  "I2C_Read_message io address buffer =
     (case transfer (message_replies io) buffer of
        (r, rest) \<Rightarrow>
          (r, io\<lparr>message_replies := rest,
                 trace := trace io @ [Bus_read address Message]\<rparr>))"

definition I2C_Read_t100 ::
  "i2c \<Rightarrow> u16 \<Rightarrow> mxt_touch_multiscreen_t100
     \<Rightarrow> (i2c_status \<times> mxt_touch_multiscreen_t100) \<times> i2c" where
  "I2C_Read_t100 io address buffer =
     (case transfer (t100_replies io) buffer of
        (r, rest) \<Rightarrow>
          (r, io\<lparr>t100_replies := rest,
                 trace := trace io @ [Bus_read address Multiscreen_t100]\<rparr>))"

definition I2C_Write :: "i2c \<Rightarrow> u16 \<Rightarrow> write_payload \<Rightarrow> i2c_status \<times> i2c" where
  "I2C_Write io address payload =
     (case write_replies io of
        [] \<Rightarrow> (FAILED, io\<lparr>trace := trace io @ [Bus_write address payload]\<rparr>)
      | status # rest \<Rightarrow>
          (status, io\<lparr>write_replies := rest,
                      trace := trace io @ [Bus_write address payload]\<rparr>))"

section \<open>The driver's static variables (maxtouch.c, lines 25-44)\<close>

text \<open>
  \<open>t100_num_reports\<close> is a \<^verbatim>\<open>uint16_t\<close> that only ever holds a value from 0 to
  \<open>NUM_FINGERS\<close>; it is a \<open>nat\<close> here. \<open>t100_subsequent_report_ids\<close> is the array of
  \<open>NUM_FINGERS\<close> elements.
\<close>

record statics =
  t2_encryption_status_address :: u16
  t5_message_processor_address :: u16
  t5_max_message_size :: u16
  t6_command_processor_address :: u16
  t7_powerconfig_address :: u16
  t8_acquisitionconfig_address :: u16
  t44_message_count_address :: u16
  t46_cte_config_address :: u16
  t100_multiple_touch_touchscreen_address :: u16
  t100_first_report_id :: u16
  t100_second_report_id :: u16
  t100_subsequent_report_ids :: "u16 list"
  t100_num_reports :: nat
  cpi :: u16

definition initial_statics :: statics where
  "initial_statics =
     \<lparr>t2_encryption_status_address = 0, t5_message_processor_address = 0,
      t5_max_message_size = 0, t6_command_processor_address = 0,
      t7_powerconfig_address = 0, t8_acquisitionconfig_address = 0,
      t44_message_count_address = 0, t46_cte_config_address = 0,
      t100_multiple_touch_touchscreen_address = 0, t100_first_report_id = 0,
      t100_second_report_id = 0, t100_subsequent_report_ids = replicate NUM_FINGERS 0,
      t100_num_reports = 0, cpi = MXT_DEFAULT_DPI\<rparr>"

record finger_t =
  confidence :: bool
  tip :: bool
  x :: u16
  y :: u16

record digitizer_t =
  fingers :: "finger_t list"

section \<open>read_object_table (maxtouch.c, lines 57-136)\<close>

text \<open>
  The loop of line 117: \<^verbatim>\<open>t100_num_reports\<close> counts up from 0 while it is below both
  \<open>NUM_FINGERS\<close> and \<^verbatim>\<open>report_ids_per_instance\<close>; each round stores
  \<^verbatim>\<open>report_id + 2 + t100_num_reports\<close>, narrowed to 16 bits, at that index.
\<close>

function t100_assign_report_ids :: "int \<Rightarrow> nat \<Rightarrow> nat \<Rightarrow> u16 list \<Rightarrow> nat \<times> u16 list" where
  "t100_assign_report_ids next_id per_instance n ids =
     (if n < NUM_FINGERS \<and> n < per_instance
      then t100_assign_report_ids next_id per_instance (Suc n)
             (ids[n := word_of_int (next_id + 2 + int n)])
      else (n, ids))"
  by pat_completeness auto
termination
  by (relation "measure (\<lambda>(next_id, per_instance, n, ids). NUM_FINGERS - n)") auto

declare t100_assign_report_ids.simps [simp del]

text \<open>The \<^verbatim>\<open>switch (object.type)\<close> of lines 88-122.\<close>

definition object_table_switch :: "statics \<Rightarrow> int \<Rightarrow> mxt_object_table_element \<Rightarrow> statics" where
  "object_table_switch s next_id object =
     (let address = (push_bit 8 (ucast (position_ms_byte object)) OR
                     ucast (position_ls_byte object) :: u16)
      in if type_id object = 2 then s\<lparr>t2_encryption_status_address := address\<rparr>
         else if type_id object = 5 then
           s\<lparr>t5_message_processor_address := address,
             t5_max_message_size := word_of_int (uint (size_minus_one object) - 1)\<rparr>
         else if type_id object = 6 then s\<lparr>t6_command_processor_address := address\<rparr>
         else if type_id object = 7 then s\<lparr>t7_powerconfig_address := address\<rparr>
         else if type_id object = 8 then s\<lparr>t8_acquisitionconfig_address := address\<rparr>
         else if type_id object = 44 then s\<lparr>t44_message_count_address := address\<rparr>
         else if type_id object = 46 then s\<lparr>t46_cte_config_address := address\<rparr>
         else if type_id object = 100 then
           (case t100_assign_report_ids next_id (unat (report_ids_per_instance object)) 0
                   (t100_subsequent_report_ids s) of
              (n, ids) \<Rightarrow>
                s\<lparr>t100_multiple_touch_touchscreen_address := address,
                  t100_first_report_id := word_of_int next_id,
                  t100_second_report_id := word_of_int (next_id + 1),
                  t100_subsequent_report_ids := ids,
                  t100_num_reports := n\<rparr>)
         else s)"

text \<open>
  What one entry adds to the running event-id counter (line 124). The members are bytes
  promoted to \<^verbatim>\<open>int\<close>, so one entry adds at most \<open>255 * 256\<close>.
\<close>

definition report_ids_of :: "mxt_object_table_element \<Rightarrow> int" where
  "report_ids_of object =
     uint (report_ids_per_instance object) * (uint (instances_minus_one object) + 1)"

text \<open>
  One round of the loop of lines 79-130, on the loop's variables: the statics, the local
  \<^verbatim>\<open>report_id\<close> (\<open>next_id\<close> here, the name being a member of the event record), the
  local \<^verbatim>\<open>object_table_element_address\<close> and the transport.
\<close>

definition read_object_table_round ::
  "maxtouch_h \<Rightarrow> statics \<times> int \<times> u16 \<times> i2c \<Rightarrow> statics \<times> int \<times> u16 \<times> i2c" where
  "read_object_table_round h st =
     (case st of (s, next_id, object_table_element_address, io) \<Rightarrow>
        (case I2C_Read_object io object_table_element_address zero_object_table_element of
           ((OK, object), io') \<Rightarrow>
             (object_table_switch s next_id object,
              next_id + report_ids_of object,
              object_table_element_address + of_nat (sizeof_mxt_object_table_element h),
              io')
         | ((FAILED, object), io') \<Rightarrow>
             (s, next_id, object_table_element_address,
              printf io' Failed_to_read_object_table_element)))"

fun read_object_table_loop ::
  "maxtouch_h \<Rightarrow> nat \<Rightarrow> statics \<times> int \<times> u16 \<times> i2c \<Rightarrow> statics \<times> int \<times> u16 \<times> i2c" where
  "read_object_table_loop h 0 st = st"
| "read_object_table_loop h (Suc k) st =
     read_object_table_loop h k (read_object_table_round h st)"

definition read_object_table :: "maxtouch_h \<Rightarrow> statics \<Rightarrow> i2c \<Rightarrow> statics \<times> i2c" where
  "read_object_table h s io =
     (case I2C_Read_information io (MXT_REG_INFORMATION_BLOCK h) zero_information_block of
        ((OK, information), io') \<Rightarrow>
          (case read_object_table_loop h (unat (num_objects information))
                  (s, 1, of_nat (sizeof_mxt_information_block h),
                   printf io' (Found_MXT information)) of
             (s', next_id, object_table_element_address, io'') \<Rightarrow> (s', io''))
      | ((FAILED, information), io') \<Rightarrow> (s, printf io' Failed_to_read_object_table))"

section \<open>write_configuration (maxtouch.c, lines 138-218)\<close>

text \<open>The three simple capabilities: one write each when the address is non-zero.\<close>

definition write_t7 :: "maxtouch_h \<Rightarrow> statics \<Rightarrow> i2c \<Rightarrow> i2c" where
  "write_t7 h s io =
     (if t7_powerconfig_address s \<noteq> 0 then
        snd (I2C_Write io (t7_powerconfig_address s)
               (Write_t7 (zero_powerconfig_t7
                  \<lparr>idleacqint := 32, actacqint := 10, actv2idelto := 50,
                   cfg := T7_CFG_ACTVPIPEEN h OR T7_CFG_IDLEPIPEEN h\<rparr>)))
      else io)"

definition write_t8 :: "statics \<Rightarrow> i2c \<Rightarrow> i2c" where
  "write_t8 s io =
     (if t8_acquisitionconfig_address s \<noteq> 0 then
        snd (I2C_Write io (t8_acquisitionconfig_address s) Write_zero_t8)
      else io)"

definition write_t46 :: "statics \<Rightarrow> i2c \<Rightarrow> i2c" where
  "write_t46 s io =
     (if t46_cte_config_address s \<noteq> 0 then
        snd (I2C_Write io (t46_cte_config_address s) Write_zero_t46)
      else io)"

text \<open>
  Lines 183-209: the assignments to the touch record \<^verbatim>\<open>cfg\<close> (\<open>config\<close> here).
  \<^verbatim>\<open>information\<close> is not declared in \<^verbatim>\<open>write_configuration\<close>; it is a parameter.
  A zero matrix size makes the pitch a division by zero, and the range conversions can
  overflow.
\<close>

definition configure_t100 ::
  "maxtouch_h \<Rightarrow> statics \<Rightarrow> mxt_information_block \<Rightarrow> mxt_touch_multiscreen_t100
     \<Rightarrow> error + mxt_touch_multiscreen_t100" where
  "configure_t100 h s information config =
     (case divide (MXT_SENSOR_WIDTH_MM h) (unat (matrix_x_size information)) of
        Inl e \<Rightarrow> Inl e
      | Inr x_pitch \<Rightarrow>
     (case divide (MXT_SENSOR_HEIGHT_MM h) (unat (matrix_y_size information)) of
        Inl e \<Rightarrow> Inl e
      | Inr y_pitch \<Rightarrow>
     (case CPI_TO_SAMPLES (uint (cpi s)) (int (MXT_SENSOR_HEIGHT_MM h)) of
        Inl e \<Rightarrow> Inl e
      | Inr x_range \<Rightarrow>
     (case CPI_TO_SAMPLES (uint (cpi s)) (int (MXT_SENSOR_WIDTH_MM h)) of
        Inl e \<Rightarrow> Inl e
      | Inr y_range \<Rightarrow>
          Inr (config
            \<lparr>ctrl := T100_CTRL_RPTEN h OR T100_CTRL_ENABLE h,
             cfg1 := (if DIGITIZER_INVERT_X h then T100_CFG_SWITCHXY h OR T100_CFG_INVERTY h
                      else T100_CFG_SWITCHXY h),
             scraux := 1,
             numtch := int NUM_FINGERS,
             xsize := uint (matrix_x_size information),
             ysize := uint (matrix_y_size information),
             xpitch := int x_pitch,
             ypitch := int y_pitch,
             gain := MXT_GAIN,
             dxgain := MXT_DX_GAIN,
             tchthr := MXT_TOUCH_THRESHOLD,
             mrgthr := 5,
             mrghyst := 5,
             movsmooth := 224,
             movfilter := 4 AND 15,
             movhysti := 6,
             movhystn := 4,
             xrange := x_range,
             yrange := y_range\<rparr>)))))"

text \<open>
  Lines 178-217. The status of the read is stored and never tested; the status of the
  write is tested for the diagnostic.
\<close>

definition write_t100 ::
  "maxtouch_h \<Rightarrow> statics \<Rightarrow> mxt_information_block \<Rightarrow> i2c \<Rightarrow> (error + unit) \<times> i2c" where
  "write_t100 h s information io =
     (if t100_multiple_touch_touchscreen_address s \<noteq> 0 then
        (case I2C_Read_t100 io (t100_multiple_touch_touchscreen_address s)
                zero_multiscreen_t100 of
           ((status, config), io') \<Rightarrow>
             (case configure_t100 h s information config of
                Inl e \<Rightarrow> (Inl e, io')
              | Inr config' \<Rightarrow>
                  (case I2C_Write io' (t100_multiple_touch_touchscreen_address s)
                          (Write_t100 config') of
                     (OK, io'') \<Rightarrow> (Inr (), io'')
                   | (FAILED, io'') \<Rightarrow> (Inr (), printf io'' T100_Configuration_failed))))
      else (Inr (), io))"

definition write_configuration ::
  "maxtouch_h \<Rightarrow> statics \<Rightarrow> mxt_information_block \<Rightarrow> i2c \<Rightarrow> (error + unit) \<times> i2c" where
  "write_configuration h s information io =
     write_t100 h s information (write_t46 s (write_t8 s (write_t7 h s io)))"

text \<open>The bus writes in a trace, in order.\<close>

fun bus_writes :: "io_event list \<Rightarrow> (u16 \<times> write_payload) list" where
  "bus_writes [] = []"
| "bus_writes (Bus_write address payload # evs) = (address, payload) # bus_writes evs"
| "bus_writes (ev # evs) = bus_writes evs"

text \<open>The bus reads in a trace, in order.\<close>

fun bus_reads :: "io_event list \<Rightarrow> (u16 \<times> struct_name) list" where
  "bus_reads [] = []"
| "bus_reads (Bus_read address name # evs) = (address, name) # bus_reads evs"
| "bus_reads (ev # evs) = bus_reads evs"

section \<open>read_messages (maxtouch.c, lines 227-277)\<close>

text \<open>
  Lines 250-252: the event tag is the low nibble of payload byte 0, the position two
  little-endian 16-bit values.
\<close>

definition message_event :: "mxt_message \<Rightarrow> int" where
  "message_event message = uint (data_at message 0) AND 15"

definition message_x :: "mxt_message \<Rightarrow> u16" where
  "message_x message =
     word_of_int (uint (data_at message 1) OR push_bit 8 (uint (data_at message 2)))"

definition message_y :: "mxt_message \<Rightarrow> u16" where
  "message_y message =
     word_of_int (uint (data_at message 3) OR push_bit 8 (uint (data_at message 4)))"

text \<open>
  Lines 254-267 on one finger, in the order of the source. (Line 253 declares a local that
  is never used.)
\<close>

definition update_finger :: "maxtouch_h \<Rightarrow> int \<Rightarrow> u16 \<Rightarrow> u16 \<Rightarrow> finger_t \<Rightarrow> finger_t" where
  "update_finger h event px py f =
     (let f1 = (if event = DOWN h then f\<lparr>tip := True\<rparr> else f);
          f2 = (if event = UP h \<or> event = UNSUP h \<or> event = DOWNUP h
                then f1\<lparr>tip := False\<rparr> else f1);
          f3 = f2\<lparr>confidence := \<not> (event = SUP_tag h \<or> event = DOWNSUP h)\<rparr>
      in if event \<noteq> UP h then f3\<lparr>x := px, y := py\<rparr> else f3)"

text \<open>
  The condition of lines 246-247, with the short circuit of \<^verbatim>\<open>&&\<close>: the second
  comparison reads \<^verbatim>\<open>t100_subsequent_report_ids[t100_num_reports - 1]\<close> only when the
  first holds. The operands are promoted to \<^verbatim>\<open>int\<close>.
\<close>

definition per_finger_range :: "statics \<Rightarrow> mxt_message \<Rightarrow> error + bool" where
  "per_finger_range s message =
     (case report_ids_at (t100_subsequent_report_ids s) 0 of
        Inl e \<Rightarrow> Inl e
      | Inr lo \<Rightarrow>
          if uint (report_id message) \<ge> uint lo then
            (case report_ids_at (t100_subsequent_report_ids s)
                    (int (t100_num_reports s) - 1) of
               Inl e \<Rightarrow> Inl e
             | Inr hi \<Rightarrow> Inr (uint (report_id message) \<le> uint hi))
          else Inr False)"

text \<open>Line 249: the difference, narrowed to \<^verbatim>\<open>uint8_t\<close>.\<close>

definition contact_id_of :: "u16 \<Rightarrow> mxt_message \<Rightarrow> nat" where
  "contact_id_of lo message = unat (word_of_int (uint (report_id message) - uint lo) :: u8)"

text \<open>Lines 249-267: the per-finger branch. The source indexes \<open>fingers\<close> unchecked.\<close>

definition per_finger_record ::
  "maxtouch_h \<Rightarrow> statics \<Rightarrow> mxt_message \<Rightarrow> digitizer_t \<Rightarrow> error + digitizer_t" where
  "per_finger_record h s message digitizer_report =
     (case report_ids_at (t100_subsequent_report_ids s) 0 of
        Inl e \<Rightarrow> Inl e
      | Inr lo \<Rightarrow>
          (let contact_id = contact_id_of lo message
           in if contact_id < length (fingers digitizer_report) then
                Inr (digitizer_report
                  \<lparr>fingers := (fingers digitizer_report)
                     [contact_id := update_finger h (message_event message) (message_x message)
                        (message_y message) (fingers digitizer_report ! contact_id)]\<rparr>)
              else Inl (Fingers_index_out_of_bounds contact_id)))"

text \<open>
  Line 271: the diagnostic of the last branch reads three elements of
  \<^verbatim>\<open>t100_subsequent_report_ids\<close>, at 0, at \<^verbatim>\<open>t100_num_reports\<close> and at
  \<^verbatim>\<open>t100_num_reports - 1\<close>.
\<close>

definition unhandled_record :: "statics \<Rightarrow> mxt_message \<Rightarrow> error + diagnostic" where
  "unhandled_record s message =
     (case report_ids_at (t100_subsequent_report_ids s) 0 of
        Inl e \<Rightarrow> Inl e
      | Inr a \<Rightarrow>
     (case report_ids_at (t100_subsequent_report_ids s) (int (t100_num_reports s)) of
        Inl e \<Rightarrow> Inl e
      | Inr b \<Rightarrow>
     (case report_ids_at (t100_subsequent_report_ids s) (int (t100_num_reports s) - 1) of
        Inl e \<Rightarrow> Inl e
      | Inr c \<Rightarrow> Inr (Unhandled_ID (report_id message) a b c))))"

text \<open>
  Lines 242-272: one event record. The result is the new state and what was printed.
\<close>

definition handle_message ::
  "maxtouch_h \<Rightarrow> statics \<Rightarrow> mxt_message \<Rightarrow> digitizer_t
     \<Rightarrow> error + (digitizer_t \<times> diagnostic list)" where
  "handle_message h s message digitizer_report =
     (if uint (report_id message) = uint (t100_first_report_id s) then
        Inr (digitizer_report, [])
      else
        (case per_finger_range s message of
           Inl e \<Rightarrow> Inl e
         | Inr True \<Rightarrow>
             (case per_finger_record h s message digitizer_report of
                Inl e \<Rightarrow> Inl e
              | Inr digitizer_report' \<Rightarrow> Inr (digitizer_report', []))
         | Inr False \<Rightarrow>
             (case unhandled_record s message of
                Inl e \<Rightarrow> Inl e
              | Inr d \<Rightarrow> Inr (digitizer_report, [d]))))"

text \<open>
  The loop of lines 236-273. The status of each record read is stored and never tested:
  after a failed read the zero-initialised record is processed.
\<close>

fun read_messages_loop ::
  "maxtouch_h \<Rightarrow> statics \<Rightarrow> nat \<Rightarrow> digitizer_t \<times> i2c \<Rightarrow> (error + digitizer_t) \<times> i2c" where
  "read_messages_loop h s 0 (digitizer_report, io) = (Inr digitizer_report, io)"
| "read_messages_loop h s (Suc k) (digitizer_report, io) =
     (case I2C_Read_message io (t5_message_processor_address s) zero_message of
        ((status, message), io') \<Rightarrow>
          (case handle_message h s message digitizer_report of
             Inl e \<Rightarrow> (Inl e, io')
           | Inr (digitizer_report', printed) \<Rightarrow>
               read_messages_loop h s k
                 (digitizer_report', io'\<lparr>trace := trace io' @ map Printed printed\<rparr>)))"

definition read_messages ::
  "maxtouch_h \<Rightarrow> statics \<Rightarrow> i2c \<Rightarrow> digitizer_t \<Rightarrow> (error + digitizer_t) \<times> i2c" where
  "read_messages h s io digitizer_report =
     (if t44_message_count_address s \<noteq> 0 then
        (case I2C_Read_count io (t44_message_count_address s) zero_message_count of
           ((OK, message_count), io') \<Rightarrow>
             read_messages_loop h s (unat (count message_count)) (digitizer_report, io')
         | ((FAILED, message_count), io') \<Rightarrow> (Inr digitizer_report, io'))
      else (Inr digitizer_report, io))"

section \<open>The decoder in the words of the specification\<close>





section \<open>Notions used in the statements\<close>

text \<open>The records that a queue of transport answers delivers, in order.\<close>

fun delivered :: "'a option list \<Rightarrow> 'a list" where
  "delivered [] = []"
| "delivered (None # rest) = delivered rest"
| "delivered (Some v # rest) = v # delivered rest"

text \<open>The next read from a queue fails: the queue is exhausted or its head is a failure.\<close>

fun fails_next :: "'a option list \<Rightarrow> bool" where
  "fails_next (Some v # rest) = False"
| "fails_next rs = True"

text \<open>
  The shape in which \<^verbatim>\<open>read_object_table\<close> leaves the touch capability's ids: the array
  has its \<open>NUM_FINGERS\<close> elements, at most that many are assigned, the assigned ones are
  consecutive 16-bit values, and the first of them is the first id plus 2.
\<close>

definition t100_ids_assigned :: "statics \<Rightarrow> bool" where
  "t100_ids_assigned s \<longleftrightarrow>
     length (t100_subsequent_report_ids s) = NUM_FINGERS
     \<and> t100_num_reports s \<le> NUM_FINGERS
     \<and> (\<forall>k < t100_num_reports s.
          t100_subsequent_report_ids s ! k = t100_first_report_id s + 2 + of_nat k)"

text \<open>
  A header instance for the concrete evaluations: a 7-byte information block at register
  0, 6-byte table entries, and the event tags numbered as the chip's touch events.
\<close>

definition example_h :: maxtouch_h where
  "example_h =
     \<lparr>MXT_REG_INFORMATION_BLOCK = 0, sizeof_mxt_information_block = 7,
      sizeof_mxt_object_table_element = 6, T7_CFG_ACTVPIPEEN = 32, T7_CFG_IDLEPIPEEN = 16,
      T100_CTRL_RPTEN = 2, T100_CTRL_ENABLE = 1, T100_CFG_SWITCHXY = 32,
      T100_CFG_INVERTY = 64, DIGITIZER_INVERT_X = False, MXT_SENSOR_WIDTH_MM = 156,
      MXT_SENSOR_HEIGHT_MM = 91, DOWN = 4, UP = 5, UNSUP = 2, DOWNUP = 9, SUP_tag = 3,
      DOWNSUP = 8\<rparr>"

definition silent_i2c :: i2c where
  "silent_i2c =
     \<lparr>information_replies = [], object_replies = [], count_replies = [],
      message_replies = [], t100_replies = [], write_replies = [], trace = []\<rparr>"

definition example_information :: mxt_information_block where
  "example_information =
     \<lparr>family_id = 166, variant_id = 0, version = 1, build = 0, matrix_x_size = 12,
      matrix_y_size = 7, num_objects = 3\<rparr>"

definition example_object :: "u8 \<Rightarrow> u8 \<Rightarrow> u8 \<Rightarrow> u8 \<Rightarrow> mxt_object_table_element" where
  "example_object ty position instances per_instance =
     \<lparr>type_id = ty, position_ls_byte = position, position_ms_byte = 1, size_minus_one = 9,
      instances_minus_one = instances, report_ids_per_instance = per_instance\<rparr>"

definition inactive_finger :: finger_t where
  "inactive_finger = \<lparr>confidence = False, tip = False, x = 0, y = 0\<rparr>"

definition inactive_digitizer :: digitizer_t where
  "inactive_digitizer = \<lparr>fingers = replicate NUM_FINGERS inactive_finger\<rparr>"

text \<open>
  A capability table of three entries: the message count (type 44), an entry of a type
  the driver does not know (37, three instances of three ids) and the touch capability
  (type 100, seven ids per instance).
\<close>

definition example_table :: "mxt_object_table_element option list" where
  "example_table =
     [Some (example_object 44 10 0 0), Some (example_object 37 20 2 3),
      Some (example_object 100 40 0 7)]"

definition example_i2c :: i2c where
  "example_i2c =
     silent_i2c\<lparr>information_replies := [Some example_information],
                object_replies := example_table\<rparr>"

text \<open>The same table behind a transport whose first entry read fails.\<close>

definition failing_i2c :: i2c where
  "failing_i2c =
     silent_i2c\<lparr>information_replies := [Some example_information],
                object_replies := None # example_table\<rparr>"

text \<open>
  Statics in which the power and the touch capability are resolved, and the touch record
  that \<^verbatim>\<open>write_configuration\<close> makes of a zero-initialised one for the example header
  and information block.
\<close>

definition example_touch_statics :: statics where
  "example_touch_statics =
     initial_statics\<lparr>t7_powerconfig_address := 266,
                     t100_multiple_touch_touchscreen_address := 296\<rparr>"

definition example_t100_written :: mxt_touch_multiscreen_t100 where
  "example_t100_written =
     \<lparr>ctrl = 3, cfg1 = 32, scraux = 1, numtch = 5, xsize = 12, ysize = 7, xpitch = 13,
      ypitch = 13, gain = 4, dxgain = 255, tchthr = 18, mrgthr = 5, mrghyst = 5,
      movsmooth = 224, movfilter = 4, movhysti = 6, movhystn = 4, xrange = 2150,
      yrange = 3685, other_members = (\<lambda>k. 0)\<rparr>"

text \<open>
  The statics after resolving the example table, event records of five payload bytes, a
  state in which finger 2 touches, and a transport with a DOWN record at (100, 200) and an
  UP record for finger 2.
\<close>

definition example_resolved :: statics where
  "example_resolved = fst (read_object_table example_h initial_statics example_i2c)"

definition example_message :: "u8 \<Rightarrow> u8 \<Rightarrow> u8 \<Rightarrow> u8 \<Rightarrow> mxt_message" where
  "example_message rid tag xl yl = \<lparr>report_id = rid, data = [tag, xl, 0, yl, 0]\<rparr>"

definition touching_digitizer :: digitizer_t where
  "touching_digitizer =
     \<lparr>fingers = (replicate NUM_FINGERS inactive_finger)
        [2 := \<lparr>confidence = True, tip = True, x = 1, y = 2\<rparr>]\<rparr>"

definition example_events_i2c :: i2c where
  "example_events_i2c =
     silent_i2c\<lparr>count_replies := [Some \<lparr>count = 2\<rparr>],
                message_replies := [Some (example_message 14 4 100 200),
                                    Some (example_message 14 5 0 0)]\<rparr>"

section \<open>Properties of the rounding macros\<close>

lemma int_value_in_range:
  "- (2 ^ 31) \<le> v \<Longrightarrow> v < 2 ^ 31 \<Longrightarrow> int_value v = Inr v"
  by (simp add: int_value_def)

lemma int_divide_nonneg:
  assumes "0 \<le> a" "0 < b" "a < 2 ^ 31"
  shows "int_divide a b = Inr (a div b)"
proof -
  have lo: "0 \<le> a div b" using assms by (simp add: pos_imp_zdiv_nonneg_iff)
  have hi: "a div b \<le> a" using assms zdiv_mono2 [of a 1 b] by simp
  have "int_divide a b = int_value (a div b)"
    using assms by (simp add: int_divide_def)
  also have "\<dots> = Inr (a div b)"
    using lo hi assms by (intro int_value_in_range) linarith+
  finally show ?thesis .
qed

lemma half_up_div:
  fixes n d :: int
  assumes "0 \<le> n" "0 < d"
  shows "(n + d div 2) div d = round_half_away_from_zero (real_of_int n / real_of_int d)"
proof -
  have "real_of_int n / real_of_int d + 1 / 2 = real_of_int (2 * n + d) / real_of_int (2 * d)"
    using assms by (simp add: field_simps)
  then have "\<lfloor>real_of_int n / real_of_int d + 1 / 2\<rfloor> = (2 * n + d) div (2 * d)"
    by (simp only: floor_divide_of_int_eq)
  also have "(2 * n + d) div (2 * d) = ((2 * n + d) div 2) div d"
    using assms zdiv_zmult2_eq [of d "2 * n + d" 2] by simp
  also have "(2 * n + d) div 2 = n + d div 2"
    by simp
  finally have "\<lfloor>real_of_int n / real_of_int d + 1 / 2\<rfloor> = (n + d div 2) div d" .
  moreover have nn: "0 \<le> real_of_int n / real_of_int d"
    using assms by (intro divide_nonneg_pos) simp_all
  then have "\<not> real_of_int n / real_of_int d < 0"
    and "\<bar>real_of_int n / real_of_int d\<bar> = real_of_int n / real_of_int d"
    by (linarith, rule abs_of_nonneg)
  ultimately show ?thesis
    by (simp only: round_half_away_from_zero_def if_False)
qed

lemma divide_unsigned_round_in_range:
  assumes "0 \<le> n" "0 < d" "d < 2 ^ 31" "n + d div 2 < 2 ^ 31"
  shows "DIVIDE_UNSIGNED_ROUND n d =
    Inr (round_half_away_from_zero (real_of_int n / real_of_int d))"
proof -
  note d = assms(3)
  have half: "int_divide d 2 = Inr (d div 2)"
    using assms d by (intro int_divide_nonneg) simp_all
  have "0 \<le> d div 2" using assms by simp
  then have total: "int_value (n + d div 2) = Inr (n + d div 2)"
    using assms by (intro int_value_in_range) linarith+
  have "int_divide (n + d div 2) d = Inr ((n + d div 2) div d)"
    using assms \<open>0 \<le> d div 2\<close> by (intro int_divide_nonneg) linarith+
  then show ?thesis
    using assms by (simp add: DIVIDE_UNSIGNED_ROUND_def half total half_up_div)
qed

lemma CPI_TO_SAMPLES_in_range:
  assumes "0 \<le> c" "0 \<le> mm" "c * mm * 10 + 127 < 2 ^ 31"
  shows "CPI_TO_SAMPLES c mm =
    Inr (round_half_away_from_zero (real_of_int (c * mm * 10) / 254))"
proof -
  have p: "0 \<le> c * mm" using assms by simp
  then have "c * mm \<le> c * mm * 10" by simp
  with p assms have "int_value (c * mm) = Inr (c * mm)"
    by (intro int_value_in_range) linarith+
  moreover from p assms have "int_value (c * mm * 10) = Inr (c * mm * 10)"
    by (intro int_value_in_range) linarith+
  moreover have "DIVIDE_UNSIGNED_ROUND (c * mm * 10) 254 =
      Inr (round_half_away_from_zero (real_of_int (c * mm * 10) / real_of_int 254))"
    using p assms by (intro divide_unsigned_round_in_range) simp_all
  ultimately show ?thesis
    by (simp add: CPI_TO_SAMPLES_def)
qed

lemma SAMPLES_TO_CPI_in_range:
  assumes "0 \<le> samples" "0 < mm" "samples * 254 + mm * 5 < 2 ^ 31" "mm * 10 < 2 ^ 31"
  shows "SAMPLES_TO_CPI samples mm =
    Inr (round_half_away_from_zero (real_of_int (samples * 254) / real_of_int (mm * 10)))"
proof -
  have "int_value (samples * 254) = Inr (samples * 254)"
    using assms by (intro int_value_in_range) linarith+
  moreover have "int_value (mm * 10) = Inr (mm * 10)"
    using assms by (intro int_value_in_range) linarith+
  moreover have "mm * 10 div 2 = mm * 5" by simp
  then have "DIVIDE_UNSIGNED_ROUND (samples * 254) (mm * 10) =
      Inr (round_half_away_from_zero (real_of_int (samples * 254) / real_of_int (mm * 10)))"
    using assms by (intro divide_unsigned_round_in_range) simp_all
  ultimately show ?thesis
    by (simp add: SAMPLES_TO_CPI_def)
qed

text \<open>
  Claim C6, as stated, fails where the \<^verbatim>\<open>int\<close> arithmetic of the macros overflows:
  for 65535 CPI over 4000 mm the product \<open>65535 * 4000 * 10\<close> exceeds \<open>2 ^ 31 - 1\<close>,
  so the conversion is no rounded quotient.
\<close>

theorem cpi_samples_overflow_counterexample:
  "CPI_TO_SAMPLES 65535 4000 = Inl Signed_overflow
   \<and> CPI_TO_SAMPLES 65535 4000
       \<noteq> Inr (round_half_away_from_zero (real_of_int (65535 * 4000 * 10) / 254))"
  by (simp add: CPI_TO_SAMPLES_def int_value_def)

text \<open>
  Claim C6, amended. For non-negative operands that keep the macros within the \<^verbatim>\<open>int\<close>
  range (\<open>cpi * mm * 10 + 127\<close>, respectively \<open>samples * 254 + mm * 5\<close> and
  \<open>mm * 10\<close>, below \<open>2 ^ 31\<close>, and \<open>mm\<close> non-zero for the inverse), the conversions
  are the quotients rounded to the nearest integer, ties away from zero:
  \<open>round (cpi * mm * 10 / 254)\<close> and \<open>round (samples * 254 / (mm * 10))\<close>; converting
  600 CPI over 40 mm to samples and back gives a value within 1 of 600.
\<close>

theorem cpi_samples_rounding:
  "(0 \<le> c \<and> 0 \<le> mm \<and> c * mm * 10 + 127 < 2 ^ 31 \<longrightarrow>
      CPI_TO_SAMPLES c mm =
        Inr (round_half_away_from_zero (real_of_int (c * mm * 10) / 254)))
   \<and> (0 \<le> samples \<and> 0 < mm \<and> samples * 254 + mm * 5 < 2 ^ 31 \<and> mm * 10 < 2 ^ 31 \<longrightarrow>
        SAMPLES_TO_CPI samples mm =
          Inr (round_half_away_from_zero
                 (real_of_int (samples * 254) / real_of_int (mm * 10))))
   \<and> (\<exists>s r. CPI_TO_SAMPLES 600 40 = Inr s \<and> SAMPLES_TO_CPI s 40 = Inr r
        \<and> \<bar>r - 600\<bar> \<le> 1)"
proof (intro conjI impI)
  assume "0 \<le> c \<and> 0 \<le> mm \<and> c * mm * 10 + 127 < 2 ^ 31"
  then show "CPI_TO_SAMPLES c mm =
      Inr (round_half_away_from_zero (real_of_int (c * mm * 10) / 254))"
    by (simp add: CPI_TO_SAMPLES_in_range)
next
  assume "0 \<le> samples \<and> 0 < mm \<and> samples * 254 + mm * 5 < 2 ^ 31 \<and> mm * 10 < 2 ^ 31"
  then show "SAMPLES_TO_CPI samples mm =
      Inr (round_half_away_from_zero (real_of_int (samples * 254) / real_of_int (mm * 10)))"
    by (simp add: SAMPLES_TO_CPI_in_range)
next
  have "CPI_TO_SAMPLES 600 40 = Inr 945"
    by (simp add: CPI_TO_SAMPLES_def DIVIDE_UNSIGNED_ROUND_def int_divide_def int_value_def)
  moreover have "SAMPLES_TO_CPI 945 40 = Inr 600"
    by (simp add: SAMPLES_TO_CPI_def DIVIDE_UNSIGNED_ROUND_def int_divide_def int_value_def)
  ultimately show "\<exists>s r. CPI_TO_SAMPLES 600 40 = Inr s \<and> SAMPLES_TO_CPI s 40 = Inr r
      \<and> \<bar>r - 600\<bar> \<le> 1"
    by simp
qed

theorem cpi_samples_rounding_witness:
  "(0::int) \<le> 600 \<and> (0::int) < 40 \<and> (600::int) * 40 * 10 + 127 < 2 ^ 31
   \<and> (945::int) * 254 + 40 * 5 < 2 ^ 31
   \<and> CPI_TO_SAMPLES 600 40 = Inr 945 \<and> SAMPLES_TO_CPI 945 40 = Inr 600
   \<and> round_half_away_from_zero (real_of_int (600 * 40 * 10) / 254) = 945
   \<and> round_half_away_from_zero (real_of_int (945 * 254) / real_of_int (40 * 10)) = 600"
proof -
  note claim = cpi_samples_rounding [of 600 40 945]
  have a: "CPI_TO_SAMPLES 600 40 = Inr 945"
    by (simp add: CPI_TO_SAMPLES_def DIVIDE_UNSIGNED_ROUND_def int_divide_def int_value_def)
  have b: "SAMPLES_TO_CPI 945 40 = Inr 600"
    by (simp add: SAMPLES_TO_CPI_def DIVIDE_UNSIGNED_ROUND_def int_divide_def int_value_def)
  from claim have "CPI_TO_SAMPLES 600 40 =
      Inr (round_half_away_from_zero (real_of_int (600 * 40 * 10) / 254))"
    by simp
  with a have r1: "round_half_away_from_zero (real_of_int (600 * 40 * 10) / 254) = 945"
    by simp
  from claim have "SAMPLES_TO_CPI 945 40 =
      Inr (round_half_away_from_zero (real_of_int (945 * 254) / real_of_int (40 * 10)))"
    by simp
  with b have r2: "round_half_away_from_zero (real_of_int (945 * 254) / real_of_int (40 * 10)) = 600"
    by simp
  show ?thesis
    using a b r1 r2 by simp
qed

section \<open>Properties of read_object_table\<close>

lemma round_delivered:
  assumes "object_replies io = Some object # rest"
  shows "read_object_table_round h (s, next_id, a, io) =
    (object_table_switch s next_id object, next_id + report_ids_of object,
     a + of_nat (sizeof_mxt_object_table_element h),
     io\<lparr>object_replies := rest, trace := trace io @ [Bus_read a Object_table_element]\<rparr>)"
  using assms by (simp add: read_object_table_round_def I2C_Read_object_def)

lemma round_failed:
  assumes "fails_next (object_replies io)"
  shows "read_object_table_round h (s, next_id, a, io) =
    (s, next_id, a,
     io\<lparr>object_replies := drop 1 (object_replies io),
        trace := trace io @ [Bus_read a Object_table_element,
                             Printed Failed_to_read_object_table_element]\<rparr>)"
  using assms
  by (cases "(object_replies io, zero_object_table_element)" rule: transfer.cases)
     (simp_all add: read_object_table_round_def I2C_Read_object_def printf_def)

lemma fails_next_cases:
  obtains (delivers) v rest where "rs = Some v # rest" | (fails) "fails_next rs"
  by (cases rs rule: fails_next.cases) auto

lemma delivered_take_fails:
  "fails_next rs \<Longrightarrow> delivered (take (Suc n) rs) = delivered (take n (drop 1 rs))"
  by (cases rs rule: fails_next.cases) simp_all

lemma bus_reads_append: "bus_reads (evs @ evs') = bus_reads evs @ bus_reads evs'"
  by (induction evs rule: bus_reads.induct) simp_all

lemma bus_writes_append: "bus_writes (evs @ evs') = bus_writes evs @ bus_writes evs'"
  by (induction evs rule: bus_writes.induct) simp_all

lemma upt_Suc_shift: "[0..<Suc n] = 0 # map Suc [0..<n]"
  by (simp add: upt_conv_Cons map_Suc_upt del: upt_Suc)

text \<open>The counter after \<open>n\<close> rounds, from any starting value.\<close>

lemma loop_counter:
  "fst (snd (read_object_table_loop h n (s, c, a, io))) =
     c + sum_list (map report_ids_of (delivered (take n (object_replies io))))"
proof (induction n arbitrary: s c a io)
  case 0
  show ?case by simp
next
  case (Suc n)
  show ?case
  proof (cases "object_replies io" rule: fails_next_cases)
    case (delivers object rest)
    then show ?thesis
      by (simp add: round_delivered Suc.IH)
  next
    case fails
    then show ?thesis
      by (simp add: round_failed Suc.IH delivered_take_fails del: take_Suc drop_Suc)
  qed
qed

text \<open>
  The counter is a C \<^verbatim>\<open>int\<close>. One entry adds at most \<open>255 * 256\<close> and the table has at
  most 255 entries, so the counter stays far below \<open>2 ^ 31\<close>: the unbounded \<open>int\<close> of
  the model is the value of the C variable.
\<close>

lemma report_ids_of_bounds: "0 \<le> report_ids_of object \<and> report_ids_of object \<le> 65280"
proof -
  have a: "0 \<le> uint (report_ids_per_instance object)"
    and b: "uint (report_ids_per_instance object) \<le> 255"
    and c: "0 \<le> uint (instances_minus_one object)"
    and d: "uint (instances_minus_one object) \<le> 255"
    using uint_lt2p [of "report_ids_per_instance object"]
      uint_lt2p [of "instances_minus_one object"] by simp_all
  have "uint (report_ids_per_instance object) * (uint (instances_minus_one object) + 1)
      \<le> 255 * 256"
    using a b c d by (intro mult_mono) simp_all
  then show ?thesis
    using a c by (simp add: report_ids_of_def)
qed

lemma delivered_length: "length (delivered rs) \<le> length rs"
  by (induction rs rule: delivered.induct) simp_all

lemma sum_list_bounded:
  fixes b :: int
  assumes "\<And>v. v \<in> set vs \<Longrightarrow> 0 \<le> f v \<and> f v \<le> b"
  shows "0 \<le> sum_list (map f vs) \<and> sum_list (map f vs) \<le> int (length vs) * b"
  using assms
proof (induction vs)
  case Nil
  show ?case by simp
next
  case (Cons v vs)
  have head: "0 \<le> f v \<and> f v \<le> b"
    using Cons.prems by simp
  have "0 \<le> sum_list (map f vs) \<and> sum_list (map f vs) \<le> int (length vs) * b"
    using Cons.prems by (intro Cons.IH) simp
  with head show ?case
    by (simp add: algebra_simps)
qed

lemma loop_counter_no_overflow:
  assumes "n \<le> 255"
  shows "1 \<le> fst (snd (read_object_table_loop h n (s, 1, a, io)))
     \<and> fst (snd (read_object_table_loop h n (s, 1, a, io))) < 2 ^ 31"
proof -
  let ?vs = "delivered (take n (object_replies io))"
  have len: "length ?vs \<le> 255"
    using delivered_length [of "take n (object_replies io)"] assms by simp
  have "0 \<le> sum_list (map report_ids_of ?vs)
      \<and> sum_list (map report_ids_of ?vs) \<le> int (length ?vs) * 65280"
    by (rule sum_list_bounded) (rule report_ids_of_bounds)
  moreover have "int (length ?vs) * 65280 \<le> 255 * 65280"
    using len by simp
  ultimately show ?thesis
    by (simp add: loop_counter)
qed

text \<open>The bus reads of \<open>n\<close> rounds.\<close>

lemma loop_reads:
  "bus_reads (trace (snd (snd (snd (read_object_table_loop h n (s, c, a, io)))))) =
     bus_reads (trace io) @
     map (\<lambda>k. (a + of_nat (length (delivered (take k (object_replies io)))
                           * sizeof_mxt_object_table_element h),
                Object_table_element)) [0..<n]"
proof (induction n arbitrary: s c a io)
  case 0
  show ?case by simp
next
  case (Suc n)
  show ?case
  proof (cases "object_replies io" rule: fails_next_cases)
    case (delivers object rest)
    then show ?thesis
      by (simp add: round_delivered Suc.IH bus_reads_append upt_Suc_shift comp_def
            algebra_simps del: upt_Suc)
  next
    case fails
    then show ?thesis
      by (simp add: round_failed Suc.IH bus_reads_append upt_Suc_shift comp_def
            delivered_take_fails del: upt_Suc take_Suc drop_Suc)
  qed
qed

lemma switch_other_type:
  assumes "type_id object \<noteq> 100"
  shows "t100_first_report_id (object_table_switch s c object) = t100_first_report_id s"
    and "t100_second_report_id (object_table_switch s c object) = t100_second_report_id s"
  using assms by (simp_all add: object_table_switch_def Let_def)

lemma switch_touch_type:
  assumes "type_id object = 100"
  shows "t100_first_report_id (object_table_switch s c object) = word_of_int c"
    and "t100_second_report_id (object_table_switch s c object) = word_of_int (c + 1)"
  using assms by (simp_all add: object_table_switch_def Let_def split_def)

text \<open>Rounds that read no touch entry keep the first and the second id.\<close>

lemma loop_keeps_touch_ids:
  assumes "\<forall>e\<in>set (delivered (take n (object_replies io))). type_id e \<noteq> 100"
  shows "t100_first_report_id (fst (read_object_table_loop h n (s, c, a, io)))
           = t100_first_report_id s
    \<and> t100_second_report_id (fst (read_object_table_loop h n (s, c, a, io)))
           = t100_second_report_id s"
  using assms
proof (induction n arbitrary: s c a io)
  case 0
  show ?case by simp
next
  case (Suc n)
  show ?case
  proof (cases "object_replies io" rule: fails_next_cases)
    case (delivers object rest)
    with Suc.prems have ty: "type_id object \<noteq> 100"
      and others: "\<forall>e\<in>set (delivered (take n rest)). type_id e \<noteq> 100"
      by simp_all
    from others show ?thesis
      by (simp add: round_delivered [OF delivers] Suc.IH switch_other_type [OF ty])
  next
    case fails
    with Suc.prems
    have "\<forall>e\<in>set (delivered (take n (drop 1 (object_replies io)))). type_id e \<noteq> 100"
      by (simp add: delivered_take_fails del: take_Suc drop_Suc)
    then show ?thesis
      by (simp add: round_failed [OF fails] Suc.IH)
  qed
qed

text \<open>
  The ids of the last touch entry read: the counter's start plus what the entries read
  before it consume.
\<close>

lemma loop_touch_ids:
  assumes "delivered (take n (object_replies io)) = before @ e # after"
    and "type_id e = 100"
    and "\<forall>p\<in>set after. type_id p \<noteq> 100"
  shows "t100_first_report_id (fst (read_object_table_loop h n (s, c, a, io)))
           = word_of_int (c + sum_list (map report_ids_of before))
    \<and> t100_second_report_id (fst (read_object_table_loop h n (s, c, a, io)))
           = word_of_int (c + sum_list (map report_ids_of before) + 1)"
  using assms(1)
proof (induction n arbitrary: s c a io before)
  case 0
  then show ?case by simp
next
  case (Suc n)
  show ?case
  proof (cases "object_replies io" rule: fails_next_cases)
    case fails
    with Suc.prems
    have "delivered (take n (drop 1 (object_replies io))) = before @ e # after"
      by (simp add: delivered_take_fails del: take_Suc drop_Suc)
    from Suc.IH [where io = "io\<lparr>object_replies := drop 1 (object_replies io),
        trace := trace io @ [Bus_read a Object_table_element,
                             Printed Failed_to_read_object_table_element]\<rparr>", OF _]
      this show ?thesis
      by (simp add: round_failed [OF fails])
  next
    case (delivers object rest)
    with Suc.prems have split: "object # delivered (take n rest) = before @ e # after"
      by simp
    show ?thesis
    proof (cases before)
      case Nil
      with split have obj: "object = e" and rest: "delivered (take n rest) = after"
        by simp_all
      from rest assms(3)
      have "\<forall>p\<in>set (delivered (take n rest)). type_id p \<noteq> 100" by simp
      from loop_keeps_touch_ids [where io = "io\<lparr>object_replies := rest,
          trace := trace io @ [Bus_read a Object_table_element]\<rparr>", simplified, OF this]
      show ?thesis
        using assms(2) by (simp add: round_delivered [OF delivers] obj Nil switch_touch_type)
    next
      case (Cons p before')
      with split have obj: "object = p"
        and rest: "delivered (take n rest) = before' @ e # after"
        by simp_all
      from Suc.IH [where io = "io\<lparr>object_replies := rest,
          trace := trace io @ [Bus_read a Object_table_element]\<rparr>" and before = before']
        rest show ?thesis
        by (simp add: round_delivered [OF delivers] obj Cons add.assoc)
    qed
  qed
qed

text \<open>
  Claim C1. When the header read succeeds, \<^verbatim>\<open>read_object_table\<close> is its loop run for
  \<open>num_objects\<close> rounds with the event-id counter started at 1, and when the loop ends
  the counter is 1 plus the sum of \<open>report_ids_per_instance * (instances_minus_one + 1)\<close>
  over the entries that were read successfully, whatever their types. The statics show
  it: the first id of the last touch entry read is 1 plus that sum over the entries read
  before it. Each round whose entry read succeeds adds the entry's product to the counter.
\<close>

theorem event_id_counter_advance:
  assumes "information_replies io = Some information # rest"
  shows "(let run = read_object_table_loop h (unat (num_objects information))
              (s, 1, of_nat (sizeof_mxt_information_block h),
               printf (io\<lparr>information_replies := rest,
                          trace := trace io @
                            [Bus_read (MXT_REG_INFORMATION_BLOCK h) Information_block]\<rparr>)
                 (Found_MXT information))
          in read_object_table h s io = (fst run, snd (snd (snd run)))
          \<and> fst (snd run) =
              1 + (\<Sum>entry\<leftarrow>delivered (take (unat (num_objects information))
                                          (object_replies io)).
                     uint (report_ids_per_instance entry)
                       * (uint (instances_minus_one entry) + 1)))
    \<and> (\<forall>before e after.
          delivered (take (unat (num_objects information)) (object_replies io))
            = before @ e # after
          \<and> type_id e = 100 \<and> (\<forall>p\<in>set after. type_id p \<noteq> 100) \<longrightarrow>
          t100_first_report_id (fst (read_object_table h s io)) =
            word_of_int (1 + (\<Sum>entry\<leftarrow>before.
                uint (report_ids_per_instance entry)
                  * (uint (instances_minus_one entry) + 1))))
    \<and> (object_replies io' = Some object # rest' \<longrightarrow>
          fst (snd (read_object_table_round h (s', next_id, a, io'))) =
            next_id + uint (report_ids_per_instance object)
                        * (uint (instances_minus_one object) + 1))"
proof (intro conjI allI impI)
  let ?n = "unat (num_objects information)"
  let ?io = "printf (io\<lparr>information_replies := rest,
      trace := trace io @ [Bus_read (MXT_REG_INFORMATION_BLOCK h) Information_block]\<rparr>)
      (Found_MXT information)"
  let ?run = "read_object_table_loop h ?n (s, 1, of_nat (sizeof_mxt_information_block h), ?io)"
  have of_def: "report_ids_of = (\<lambda>entry. uint (report_ids_per_instance entry)
      * (uint (instances_minus_one entry) + 1))"
    by (rule ext) (simp add: report_ids_of_def)
  have replies: "object_replies ?io = object_replies io"
    by (simp add: printf_def)
  have run: "read_object_table h s io = (fst ?run, snd (snd (snd ?run)))"
    using assms by (simp add: read_object_table_def I2C_Read_information_def split_def)
  have counter: "fst (snd ?run) = 1 + sum_list (map report_ids_of
      (delivered (take ?n (object_replies io))))"
    using loop_counter [of h ?n s 1 "of_nat (sizeof_mxt_information_block h)" ?io]
    by (simp only: replies)
  show "let run = ?run in read_object_table h s io = (fst run, snd (snd (snd run)))
      \<and> fst (snd run) =
          1 + (\<Sum>entry\<leftarrow>delivered (take ?n (object_replies io)).
                 uint (report_ids_per_instance entry) * (uint (instances_minus_one entry) + 1))"
    using run counter by (simp add: of_def Let_def)
  show "t100_first_report_id (fst (read_object_table h s io)) =
      word_of_int (1 + (\<Sum>entry\<leftarrow>before.
          uint (report_ids_per_instance entry) * (uint (instances_minus_one entry) + 1)))"
    if "delivered (take ?n (object_replies io)) = before @ e # after
      \<and> type_id e = 100 \<and> (\<forall>p\<in>set after. type_id p \<noteq> 100)"
    for before e after
  proof -
    from that have "delivered (take ?n (object_replies ?io)) = before @ e # after"
      by (simp only: replies)
    moreover from that have "type_id e = 100" and "\<forall>p\<in>set after. type_id p \<noteq> 100"
      by blast+
    ultimately have "t100_first_report_id (fst ?run)
        = word_of_int (1 + sum_list (map report_ids_of before))"
      using loop_touch_ids [of ?n ?io before e after h s 1
          "of_nat (sizeof_mxt_information_block h)"] by blast
    then
    show ?thesis
      by (simp add: run of_def)
  qed
  show "fst (snd (read_object_table_round h (s', next_id, a, io'))) =
      next_id + uint (report_ids_per_instance object) * (uint (instances_minus_one object) + 1)"
    if "object_replies io' = Some object # rest'"
    using that by (simp add: round_delivered report_ids_of_def)
qed

theorem event_id_counter_advance_witness:
  "information_replies example_i2c = Some example_information # []
   \<and> delivered (take (unat (num_objects example_information)) (object_replies example_i2c))
       = [example_object 44 10 0 0, example_object 37 20 2 3] @ example_object 100 40 0 7 # []
   \<and> t100_first_report_id (fst (read_object_table example_h initial_statics example_i2c)) = 10
   \<and> (\<exists>run :: statics \<times> int \<times> u16 \<times> i2c.
          read_object_table example_h initial_statics example_i2c
               = (fst run, snd (snd (snd run)))
          \<and> fst (snd run) = 17)"
proof -
  have i: "information_replies example_i2c = Some example_information # []"
    by (simp add: example_i2c_def silent_i2c_def)
  note claim = event_id_counter_advance [OF i, of example_h initial_statics]
  have d: "delivered (take (unat (num_objects example_information)) (object_replies example_i2c))
      = [example_object 44 10 0 0, example_object 37 20 2 3] @ example_object 100 40 0 7 # []"
    by code_simp
  have t: "type_id (example_object 100 40 0 7) = 100 \<and> (\<forall>p\<in>set []. type_id p \<noteq> 100)"
    by (simp add: example_object_def)
  have sums: "(\<Sum>entry\<leftarrow>[example_object 44 10 0 0, example_object 37 20 2 3].
        uint (report_ids_per_instance entry) * (uint (instances_minus_one entry) + 1)) = 9"
    "(\<Sum>entry\<leftarrow>[example_object 44 10 0 0, example_object 37 20 2 3]
          @ example_object 100 40 0 7 # [].
        uint (report_ids_per_instance entry) * (uint (instances_minus_one entry) + 1)) = 16"
    by (simp_all add: example_object_def)
  from claim [THEN conjunct2, THEN conjunct1] d t
  have "t100_first_report_id (fst (read_object_table example_h initial_statics example_i2c)) =
      word_of_int (1 + (\<Sum>entry\<leftarrow>[example_object 44 10 0 0, example_object 37 20 2 3].
        uint (report_ids_per_instance entry) * (uint (instances_minus_one entry) + 1)))"
    by blast
  then have first: "t100_first_report_id (fst (read_object_table example_h initial_statics
      example_i2c)) = 10"
    by (simp only: sums) simp
  let ?run = "read_object_table_loop example_h (unat (num_objects example_information))
      (initial_statics, 1, of_nat (sizeof_mxt_information_block example_h),
       printf (example_i2c\<lparr>information_replies := [],
           trace := trace example_i2c @
             [Bus_read (MXT_REG_INFORMATION_BLOCK example_h) Information_block]\<rparr>)
         (Found_MXT example_information))"
  from claim [THEN conjunct1]
  have "read_object_table example_h initial_statics example_i2c
      = (fst ?run, snd (snd (snd ?run)))
    \<and> fst (snd ?run) =
      1 + (\<Sum>entry\<leftarrow>delivered (take (unat (num_objects example_information))
              (object_replies example_i2c)).
             uint (report_ids_per_instance entry) * (uint (instances_minus_one entry) + 1))"
    by (simp only: Let_def)
  then have "read_object_table example_h initial_statics example_i2c
      = (fst ?run, snd (snd (snd ?run))) \<and> fst (snd ?run) = 17"
    by (simp only: d sums) simp
  then have "\<exists>run :: statics \<times> int \<times> u16 \<times> i2c.
      read_object_table example_h initial_statics example_i2c
      = (fst run, snd (snd (snd run))) \<and> fst (snd run) = 17"
    by (rule exI)
  then show ?thesis
    using i d first by blast
qed

text \<open>
  Claim C3, as stated, fails: with the first entry read failing, the next round reads the
  same address again (7, 7, then 13), so the addresses of the rounds are not strictly
  increasing.
\<close>

theorem entry_read_addresses_counterexample:
  "map fst (bus_reads (trace (snd (read_object_table example_h initial_statics failing_i2c))))
     = [0, 7, 7, 13]
   \<and> \<not> sorted_wrt (<)
         (map (\<lambda>r. unat (fst r))
            (filter (\<lambda>r. snd r = Object_table_element)
               (bus_reads (trace (snd (read_object_table example_h initial_statics
                  failing_i2c))))))"
  by code_simp

text \<open>
  Claim C3, amended. A round whose entry read fails reports the failure and leaves the
  statics, the counter and the address as they were, so the next round reads the same
  address again. Round \<open>k\<close> of the loop reads at the start address plus the entry size
  times the number of successful reads before it (in 16 bits): the address advances
  after a successful read only.
\<close>

theorem entry_read_addresses:
  "(fails_next (object_replies io) \<longrightarrow>
      read_object_table_round h (s, next_id, a, io) =
        (s, next_id, a,
         io\<lparr>object_replies := drop 1 (object_replies io),
            trace := trace io @ [Bus_read a Object_table_element,
                                 Printed Failed_to_read_object_table_element]\<rparr>))
   \<and> bus_reads (trace (snd (snd (snd (read_object_table_loop h n (s, next_id, a, io)))))) =
       bus_reads (trace io) @
       map (\<lambda>k. (a + of_nat (length (delivered (take k (object_replies io)))
                             * sizeof_mxt_object_table_element h),
                  Object_table_element)) [0..<n]"
  using round_failed [of io h s next_id a] loop_reads [of h n s next_id a io] by simp

theorem entry_read_addresses_witness:
  "fails_next (object_replies failing_i2c)
   \<and> fst (read_object_table_round example_h (initial_statics, 1, 7, failing_i2c))
       = initial_statics
   \<and> fst (snd (snd (read_object_table_round example_h (initial_statics, 1, 7, failing_i2c))))
       = 7
   \<and> bus_reads (trace (snd (snd (snd
        (read_object_table_loop example_h 3 (initial_statics, 1, 7, failing_i2c))))))
       = [(7, Object_table_element), (7, Object_table_element), (13, Object_table_element)]"
proof -
  note claim = entry_read_addresses [of failing_i2c example_h initial_statics 1 7 3]
  have f: "fails_next (object_replies failing_i2c)"
    by code_simp
  have r: "read_object_table_round example_h (initial_statics, 1, 7, failing_i2c) =
      (initial_statics, 1, 7,
       failing_i2c\<lparr>object_replies := drop 1 (object_replies failing_i2c),
         trace := trace failing_i2c @ [Bus_read 7 Object_table_element,
                                      Printed Failed_to_read_object_table_element]\<rparr>)"
    using claim [THEN conjunct1] f by (rule mp)
  have "bus_reads (trace failing_i2c) @
      map (\<lambda>k. ((7::u16) + of_nat (length (delivered (take k (object_replies failing_i2c)))
                                   * sizeof_mxt_object_table_element example_h),
                 Object_table_element)) [0..<3]
      = [(7, Object_table_element), (7, Object_table_element), (13, Object_table_element)]"
    by code_simp
  with claim [THEN conjunct2] have l: "bus_reads (trace (snd (snd (snd
      (read_object_table_loop example_h 3 (initial_statics, 1, 7, failing_i2c))))))
      = [(7, Object_table_element), (7, Object_table_element), (13, Object_table_element)]"
    by (rule trans)
  show ?thesis
    using f l by (simp add: r)
qed

section \<open>Properties of write_configuration\<close>

lemma transfer_fails:
  "fails_next rs \<Longrightarrow> transfer rs buffer = ((FAILED, buffer), drop 1 rs)"
  by (cases "(rs, buffer)" rule: transfer.cases) simp_all

lemma read_object_table_header_failed:
  assumes "fails_next (information_replies io)"
  shows "read_object_table h s io =
    (s, io\<lparr>information_replies := drop 1 (information_replies io),
           trace := trace io @ [Bus_read (MXT_REG_INFORMATION_BLOCK h) Information_block,
                                Printed Failed_to_read_object_table]\<rparr>)"
  using assms
  by (simp add: read_object_table_def I2C_Read_information_def transfer_fails printf_def)

lemma write_configuration_nothing:
  assumes "t7_powerconfig_address s = 0" "t8_acquisitionconfig_address s = 0"
    "t46_cte_config_address s = 0" "t100_multiple_touch_touchscreen_address s = 0"
  shows "write_configuration h s information io = (Inr (), io)"
  using assms
  by (simp add: write_configuration_def write_t7_def write_t8_def write_t46_def write_t100_def)

lemma I2C_Write_effect:
  "trace (snd (I2C_Write io a p)) = trace io @ [Bus_write a p]
   \<and> t100_replies (snd (I2C_Write io a p)) = t100_replies io
   \<and> fst (I2C_Write io a p) = (case write_replies io of [] \<Rightarrow> FAILED | st # rest \<Rightarrow> st)"
  by (simp add: I2C_Write_def split: list.splits)

lemma simple_writes_keep_t100_replies:
  "t100_replies (write_t46 s (write_t8 s (write_t7 h s io))) = t100_replies io"
  by (simp add: write_t7_def write_t8_def write_t46_def I2C_Write_effect)

lemma write_t100_read_failed:
  assumes "t100_multiple_touch_touchscreen_address s \<noteq> 0"
    and "fails_next (t100_replies io)"
    and "configure_t100 h s information zero_multiscreen_t100 = Inr config"
  shows "fst (write_t100 h s information io) = Inr ()
    \<and> trace (snd (write_t100 h s information io)) =
        trace io @
        [Bus_read (t100_multiple_touch_touchscreen_address s) Multiscreen_t100,
         Bus_write (t100_multiple_touch_touchscreen_address s) (Write_t100 config)] @
        (case write_replies io of OK # rest \<Rightarrow> [] | _ \<Rightarrow> [Printed T100_Configuration_failed])"
  using assms
  by (simp add: write_t100_def I2C_Read_t100_def transfer_fails I2C_Write_def printf_def
        split: list.splits i2c_status.splits)

text \<open>
  Claim C7. If the read of the capability-table header fails, resolution started from the
  initial statics leaves them as they are, so every address is still 0 (absent), and
  \<^verbatim>\<open>write_configuration\<close> then does nothing: it returns the transport unchanged, with no
  bus write.
\<close>

theorem header_failure_no_writes:
  assumes "fails_next (information_replies io)"
    and "read_object_table h initial_statics io = (s', io')"
  shows "s' = initial_statics
    \<and> t2_encryption_status_address s' = 0 \<and> t5_message_processor_address s' = 0
    \<and> t6_command_processor_address s' = 0 \<and> t7_powerconfig_address s' = 0
    \<and> t8_acquisitionconfig_address s' = 0 \<and> t44_message_count_address s' = 0
    \<and> t46_cte_config_address s' = 0 \<and> t100_multiple_touch_touchscreen_address s' = 0
    \<and> write_configuration h s' information io' = (Inr (), io')
    \<and> bus_writes (trace io') = bus_writes (trace io)"
proof -
  have s': "s' = initial_statics"
    and io': "io' = io\<lparr>information_replies := drop 1 (information_replies io),
           trace := trace io @ [Bus_read (MXT_REG_INFORMATION_BLOCK h) Information_block,
                                Printed Failed_to_read_object_table]\<rparr>"
    using assms by (simp_all add: read_object_table_header_failed)
  have zero: "t7_powerconfig_address s' = 0" "t8_acquisitionconfig_address s' = 0"
    "t46_cte_config_address s' = 0" "t100_multiple_touch_touchscreen_address s' = 0"
    by (simp_all add: s' initial_statics_def)
  have "write_configuration h s' information io' = (Inr (), io')"
    using zero by (rule write_configuration_nothing)
  moreover have "bus_writes (trace io') = bus_writes (trace io)"
    by (simp add: io' bus_writes_append)
  ultimately show ?thesis
    using zero by (simp add: s' initial_statics_def)
qed

theorem header_failure_no_writes_witness:
  "fails_next (information_replies silent_i2c)
   \<and> fst (read_object_table example_h initial_statics silent_i2c) = initial_statics
   \<and> write_configuration example_h (fst (read_object_table example_h initial_statics silent_i2c))
        example_information (snd (read_object_table example_h initial_statics silent_i2c))
      = (Inr (), snd (read_object_table example_h initial_statics silent_i2c))"
proof -
  have f: "fails_next (information_replies silent_i2c)"
    by (simp add: silent_i2c_def)
  note claim = header_failure_no_writes [OF f surjective_pairing, of example_h example_information]
  from claim have "fst (read_object_table example_h initial_statics silent_i2c) = initial_statics"
    by (rule conjunct1)
  moreover from claim have "write_configuration example_h
      (fst (read_object_table example_h initial_statics silent_i2c)) example_information
      (snd (read_object_table example_h initial_statics silent_i2c))
      = (Inr (), snd (read_object_table example_h initial_statics silent_i2c))"
    by blast
  ultimately show ?thesis
    using f by blast
qed

lemma configure_t100_defined:
  assumes "matrix_x_size information \<noteq> 0" "matrix_y_size information \<noteq> 0"
    and "uint (cpi s) * int (MXT_SENSOR_HEIGHT_MM h) * 10 + 127 < 2 ^ 31"
    and "uint (cpi s) * int (MXT_SENSOR_WIDTH_MM h) * 10 + 127 < 2 ^ 31"
  shows "\<exists>config. configure_t100 h s information c = Inr config
    \<and> other_members config = other_members c
    \<and> ctrl config = T100_CTRL_RPTEN h OR T100_CTRL_ENABLE h
    \<and> numtch config = int NUM_FINGERS
    \<and> xsize config = uint (matrix_x_size information)
    \<and> ysize config = uint (matrix_y_size information)"
proof -
  have "unat (matrix_x_size information) \<noteq> 0" "unat (matrix_y_size information) \<noteq> 0"
    using assms by (simp_all add: unat_eq_0)
  moreover have "CPI_TO_SAMPLES (uint (cpi s)) (int (MXT_SENSOR_HEIGHT_MM h)) =
      Inr (round_half_away_from_zero
             (real_of_int (uint (cpi s) * int (MXT_SENSOR_HEIGHT_MM h) * 10) / 254))"
    using assms(3) by (intro CPI_TO_SAMPLES_in_range) simp_all
  moreover have "CPI_TO_SAMPLES (uint (cpi s)) (int (MXT_SENSOR_WIDTH_MM h)) =
      Inr (round_half_away_from_zero
             (real_of_int (uint (cpi s) * int (MXT_SENSOR_WIDTH_MM h) * 10) / 254))"
    using assms(4) by (intro CPI_TO_SAMPLES_in_range) simp_all
  ultimately show ?thesis
    by (simp add: configure_t100_def divide_def)
qed

lemma write_t100_read_failed_undefined:
  assumes "t100_multiple_touch_touchscreen_address s \<noteq> 0"
    and "fails_next (t100_replies io)"
    and "configure_t100 h s information zero_multiscreen_t100 = Inl e"
  shows "fst (write_t100 h s information io) = Inl e
    \<and> trace (snd (write_t100 h s information io)) =
        trace io @
        [Bus_read (t100_multiple_touch_touchscreen_address s) Multiscreen_t100]"
  using assms
  by (simp add: write_t100_def I2C_Read_t100_def transfer_fails)

text \<open>
  Claim C10, as stated, fails when a matrix size is zero: after the failed read the pitch
  of line 194 is a division by zero, and the touch record is never written (the only bus
  write is the one of the power configuration).
\<close>

theorem t100_read_status_ignored_counterexample:
  "t100_multiple_touch_touchscreen_address example_touch_statics \<noteq> 0
   \<and> fails_next (t100_replies (silent_i2c\<lparr>write_replies := [OK, OK]\<rparr>))
   \<and> fst (write_configuration example_h example_touch_statics
        (example_information\<lparr>matrix_x_size := 0\<rparr>) (silent_i2c\<lparr>write_replies := [OK, OK]\<rparr>))
       = Inl Division_by_zero
   \<and> map fst (bus_writes (trace (snd (write_configuration example_h example_touch_statics
        (example_information\<lparr>matrix_x_size := 0\<rparr>) (silent_i2c\<lparr>write_replies := [OK, OK]\<rparr>)))))
       = [266]"
  by (simp add: write_configuration_def write_t100_def write_t46_def write_t8_def write_t7_def
        example_touch_statics_def initial_statics_def I2C_Write_def I2C_Read_t100_def
        silent_i2c_def configure_t100_def divide_def example_information_def example_h_def)

text \<open>
  Claim C10, amended. \<^verbatim>\<open>write_configuration\<close> does not test the status of its read of
  the touch record. When that read fails, nothing is reported and the configuration
  members are computed for the zero-initialised record. Where these computations are
  defined, the record is written to the device; where one is not (a zero matrix size, or
  an overflow in a range conversion), the run stops there, after the read and without the
  write. They are defined whenever both matrix sizes are non-zero and the range
  conversions stay within \<^verbatim>\<open>int\<close>.
\<close>

theorem t100_read_status_ignored:
  assumes "t100_multiple_touch_touchscreen_address s \<noteq> 0"
    and "fails_next (t100_replies io)"
  shows "(case configure_t100 h s information zero_multiscreen_t100 of
            Inr config \<Rightarrow>
              fst (write_configuration h s information io) = Inr ()
              \<and> trace (snd (write_configuration h s information io)) =
                  trace (write_t46 s (write_t8 s (write_t7 h s io))) @
                  [Bus_read (t100_multiple_touch_touchscreen_address s) Multiscreen_t100,
                   Bus_write (t100_multiple_touch_touchscreen_address s) (Write_t100 config)] @
                  (case write_replies (write_t46 s (write_t8 s (write_t7 h s io))) of
                     OK # rest \<Rightarrow> []
                   | _ \<Rightarrow> [Printed T100_Configuration_failed])
          | Inl e \<Rightarrow>
              fst (write_configuration h s information io) = Inl e
              \<and> trace (snd (write_configuration h s information io)) =
                  trace (write_t46 s (write_t8 s (write_t7 h s io))) @
                  [Bus_read (t100_multiple_touch_touchscreen_address s) Multiscreen_t100])
    \<and> (matrix_x_size information \<noteq> 0 \<and> matrix_y_size information \<noteq> 0
        \<and> uint (cpi s) * int (MXT_SENSOR_HEIGHT_MM h) * 10 + 127 < 2 ^ 31
        \<and> uint (cpi s) * int (MXT_SENSOR_WIDTH_MM h) * 10 + 127 < 2 ^ 31 \<longrightarrow>
          (\<exists>config. configure_t100 h s information zero_multiscreen_t100 = Inr config
             \<and> other_members config = (\<lambda>k. 0)
             \<and> ctrl config = T100_CTRL_RPTEN h OR T100_CTRL_ENABLE h
             \<and> numtch config = int NUM_FINGERS))"
proof (intro conjI impI)
  let ?io = "write_t46 s (write_t8 s (write_t7 h s io))"
  have f: "fails_next (t100_replies ?io)"
    using assms(2) by (simp add: simple_writes_keep_t100_replies)
  show "case configure_t100 h s information zero_multiscreen_t100 of
      Inr config \<Rightarrow>
        fst (write_configuration h s information io) = Inr ()
        \<and> trace (snd (write_configuration h s information io)) =
            trace ?io @
            [Bus_read (t100_multiple_touch_touchscreen_address s) Multiscreen_t100,
             Bus_write (t100_multiple_touch_touchscreen_address s) (Write_t100 config)] @
            (case write_replies ?io of OK # rest \<Rightarrow> [] | _ \<Rightarrow> [Printed T100_Configuration_failed])
    | Inl e \<Rightarrow>
        fst (write_configuration h s information io) = Inl e
        \<and> trace (snd (write_configuration h s information io)) =
            trace ?io @
            [Bus_read (t100_multiple_touch_touchscreen_address s) Multiscreen_t100]"
  proof (cases "configure_t100 h s information zero_multiscreen_t100")
    case (Inl e)
    from write_t100_read_failed_undefined [OF assms(1) f Inl] Inl show ?thesis
      by (simp only: write_configuration_def sum.case)
  next
    case (Inr config)
    from write_t100_read_failed [OF assms(1) f Inr] Inr show ?thesis
      by (simp only: write_configuration_def sum.case)
  qed
next
  assume "matrix_x_size information \<noteq> 0 \<and> matrix_y_size information \<noteq> 0
    \<and> uint (cpi s) * int (MXT_SENSOR_HEIGHT_MM h) * 10 + 127 < 2 ^ 31
    \<and> uint (cpi s) * int (MXT_SENSOR_WIDTH_MM h) * 10 + 127 < 2 ^ 31"
  then obtain config where "configure_t100 h s information zero_multiscreen_t100 = Inr config"
    and "other_members config = other_members zero_multiscreen_t100"
      "ctrl config = T100_CTRL_RPTEN h OR T100_CTRL_ENABLE h" "numtch config = int NUM_FINGERS"
    using configure_t100_defined [of information s h zero_multiscreen_t100] by blast
  then show "\<exists>config. configure_t100 h s information zero_multiscreen_t100 = Inr config
      \<and> other_members config = (\<lambda>k. 0)
      \<and> ctrl config = T100_CTRL_RPTEN h OR T100_CTRL_ENABLE h
      \<and> numtch config = int NUM_FINGERS"
    by (intro exI [of _ config]) (simp add: zero_multiscreen_t100_def)
qed

lemma example_t100_written_eq: "configure_t100 example_h example_touch_statics example_information
      zero_multiscreen_t100 = Inr example_t100_written"
  by (simp add: configure_t100_def divide_def CPI_TO_SAMPLES_def DIVIDE_UNSIGNED_ROUND_def
        int_divide_def int_value_def example_h_def
        example_touch_statics_def initial_statics_def example_information_def
        zero_multiscreen_t100_def example_t100_written_def NUM_FINGERS_def MXT_GAIN_def
        MXT_DX_GAIN_def MXT_TOUCH_THRESHOLD_def MXT_DEFAULT_DPI_def)

theorem t100_read_status_ignored_witness:
  "t100_multiple_touch_touchscreen_address example_touch_statics \<noteq> 0
   \<and> fails_next (t100_replies (silent_i2c\<lparr>write_replies := [OK, OK]\<rparr>))
   \<and> configure_t100 example_h example_touch_statics example_information
        zero_multiscreen_t100 = Inr example_t100_written
   \<and> fst (write_configuration example_h example_touch_statics example_information
        (silent_i2c\<lparr>write_replies := [OK, OK]\<rparr>)) = Inr ()
   \<and> map fst (bus_writes (trace (snd (write_configuration example_h example_touch_statics
         example_information (silent_i2c\<lparr>write_replies := [OK, OK]\<rparr>))))) = [266, 296]
   \<and> bus_writes (trace (snd (write_configuration example_h example_touch_statics
         example_information (silent_i2c\<lparr>write_replies := [OK, OK]\<rparr>)))) ! 1
       = (296, Write_t100 example_t100_written)"
proof -
  let ?io = "silent_i2c\<lparr>write_replies := [OK, OK]\<rparr>"
  have a: "t100_multiple_touch_touchscreen_address example_touch_statics \<noteq> 0"
    by (simp add: example_touch_statics_def)
  have f: "fails_next (t100_replies ?io)"
    by (simp add: silent_i2c_def)
  have before: "trace (write_t46 example_touch_statics (write_t8 example_touch_statics
      (write_t7 example_h example_touch_statics ?io))) =
      [Bus_write 266 (Write_t7 \<lparr>idleacqint = 32, actacqint = 10, actv2idelto = 50, cfg = 48\<rparr>)]"
    "write_replies (write_t46 example_touch_statics (write_t8 example_touch_statics
      (write_t7 example_h example_touch_statics ?io))) = [OK]"
    by (simp_all add: write_t46_def write_t8_def write_t7_def example_touch_statics_def
          initial_statics_def I2C_Write_def silent_i2c_def zero_powerconfig_t7_def example_h_def)
  from t100_read_status_ignored [OF a f, of example_h example_information, THEN conjunct1]
  have "fst (write_configuration example_h example_touch_statics example_information ?io) = Inr ()
    \<and> trace (snd (write_configuration example_h example_touch_statics example_information ?io)) =
       trace (write_t46 example_touch_statics (write_t8 example_touch_statics
         (write_t7 example_h example_touch_statics ?io))) @
       [Bus_read (t100_multiple_touch_touchscreen_address example_touch_statics) Multiscreen_t100,
        Bus_write (t100_multiple_touch_touchscreen_address example_touch_statics)
          (Write_t100 example_t100_written)] @
       (case write_replies (write_t46 example_touch_statics (write_t8 example_touch_statics
          (write_t7 example_h example_touch_statics ?io))) of
          OK # rest \<Rightarrow> [] | _ \<Rightarrow> [Printed T100_Configuration_failed])"
    by (simp only: example_t100_written_eq sum.case)
  moreover have "t100_multiple_touch_touchscreen_address example_touch_statics = 296"
    by (simp add: example_touch_statics_def)
  ultimately show ?thesis
    using before a f by (simp add: example_t100_written_eq)
qed

section \<open>The per-finger ids left by read_object_table\<close>

lemma uint_u8_le: "uint (b :: u8) \<le> 255"
  using uint_lt2p [of b] by simp

lemma uint_add_of_nat_u16:
  "uint (a + of_nat k :: u16) = (uint a + int k) mod 65536"
proof -
  have "uint (of_nat k :: u16) = int k mod 65536"
    by (simp only: uint_nat unat_of_nat zmod_int) simp
  moreover have "uint (a + of_nat k :: u16) = (uint a + uint (of_nat k :: u16)) mod 65536"
    using uint_word_ariths(1) [of a "of_nat k"] by simp
  ultimately show ?thesis
    by (simp only: mod_add_right_eq)
qed

lemma uint_add_small:
  assumes "uint (a :: u16) + int k < 65536"
  shows "uint (a + of_nat k) = uint a + int k"
proof -
  have "0 \<le> uint a + int k" by simp
  with assms show ?thesis
    by (simp only: uint_add_of_nat_u16 mod_pos_pos_trivial)
qed

lemma unat_word_of_int_u8:
  assumes "0 \<le> i" "i < 256"
  shows "unat (word_of_int i :: u8) = nat i"
proof -
  have "uint (word_of_int i :: u8) = i mod 256"
    using uint_word_of_int [of i, where 'a = 8] by simp
  with assms have "uint (word_of_int i :: u8) = i" by simp
  then show ?thesis by (simp only: unat_eq_nat_uint)
qed

lemma word_of_int_next_id:
  "(word_of_int (c + 2 + int k) :: u16) = word_of_int c + 2 + of_nat k"
  by simp

lemma report_ids_at_in_range:
  "0 \<le> i \<Longrightarrow> i < int (length ids) \<Longrightarrow> report_ids_at ids i = Inr (ids ! nat i)"
  by (simp add: report_ids_at_def)

lemma report_ids_at_Inr:
  "report_ids_at ids i = Inr v \<Longrightarrow> 0 \<le> i \<and> i < int (length ids) \<and> v = ids ! nat i"
  by (auto simp: report_ids_at_def split: if_splits)


text \<open>The record of finger \<open>k\<close>, in statics shaped by the resolver.\<close>

lemma finger_record_classified:
  assumes inv: "t100_ids_assigned s"
    and k: "k < t100_num_reports s"
    and rid: "uint (report_id message) = uint (t100_subsequent_report_ids s ! 0) + int k"
  shows "per_finger_range s message = Inr True"
    and "uint (report_id message) \<noteq> uint (t100_first_report_id s)"
    and "report_ids_at (t100_subsequent_report_ids s) 0 = Inr (t100_subsequent_report_ids s ! 0)"
    and "contact_id_of (t100_subsequent_report_ids s ! 0) message = k"
proof -
  let ?ids = "t100_subsequent_report_ids s"
  let ?n = "t100_num_reports s"
  let ?r = "uint (report_id message)"
  from inv have len: "length ?ids = NUM_FINGERS" and n5: "?n \<le> NUM_FINGERS"
    and ids: "\<And>k. k < ?n \<Longrightarrow> ?ids ! k = t100_first_report_id s + 2 + of_nat k"
    by (simp_all add: t100_ids_assigned_def)
  have r255: "?r \<le> 255" by (rule uint_u8_le)
  show lo: "report_ids_at ?ids 0 = Inr (?ids ! 0)"
    using len by (simp add: report_ids_at_def NUM_FINGERS_def)
  have hi: "report_ids_at ?ids (int ?n - 1) = Inr (?ids ! (?n - 1))"
    using k n5 len by (simp add: report_ids_at_def nat_diff_distrib)
  have first: "?ids ! 0 = t100_first_report_id s + of_nat 2"
    using k ids [of 0] by simp
  have "?ids ! (?n - 1) = t100_first_report_id s + 2 + of_nat (?n - 1)"
    using k by (intro ids) simp
  then have hi_lo: "?ids ! (?n - 1) = ?ids ! 0 + of_nat (?n - 1)"
    using first by simp
  have "uint (?ids ! 0) + int (?n - 1) < 65536"
    using rid r255 n5 by (simp add: NUM_FINGERS_def)
  then have "uint (?ids ! (?n - 1)) = uint (?ids ! 0) + int (?n - 1)"
    unfolding hi_lo by (rule uint_add_small)
  then show "per_finger_range s message = Inr True"
    using lo hi rid k by (simp add: per_finger_range_def)
  have "uint (t100_first_report_id s) + int 2 < 65536 \<Longrightarrow> ?r \<noteq> uint (t100_first_report_id s)"
    using uint_add_small [of "t100_first_report_id s" 2] first rid by simp
  then show "?r \<noteq> uint (t100_first_report_id s)"
    using r255 by fastforce
  have "unat (word_of_int (?r - uint (?ids ! 0)) :: u8) = nat (?r - uint (?ids ! 0))"
    using rid k n5 by (intro unat_word_of_int_u8) (simp_all add: NUM_FINGERS_def)
  then show "contact_id_of (?ids ! 0) message = k"
    using rid by (simp add: contact_id_of_def)
qed

text \<open>What the loop of line 117 leaves in the array.\<close>

lemma t100_assign_report_ids_result:
  assumes "t100_assign_report_ids c p n ids = (m, ids')"
  shows "length ids' = length ids \<and> n \<le> m \<and> (n \<le> NUM_FINGERS \<longrightarrow> m \<le> NUM_FINGERS)
    \<and> (\<forall>k. n \<le> k \<and> k < m \<and> k < length ids \<longrightarrow> ids' ! k = word_of_int (c + 2 + int k))
    \<and> (\<forall>k<n. ids' ! k = ids ! k)"
  using assms
proof (induction c p n ids rule: t100_assign_report_ids.induct)
  case (1 c p n ids)
  show ?case
  proof (cases "n < NUM_FINGERS \<and> n < p")
    case False
    with "1.prems" have "m = n" and "ids' = ids"
      by (simp_all add: t100_assign_report_ids.simps [of c p n ids])
    then show ?thesis by auto
  next
    case True
    let ?ids = "ids[n := word_of_int (c + 2 + int n)]"
    from True "1.prems" have call: "t100_assign_report_ids c p (Suc n) ?ids = (m, ids')"
      by (simp add: t100_assign_report_ids.simps [of c p n ids])
    from "1.IH" [OF True call]
    have len: "length ids' = length ids" and le: "Suc n \<le> m"
      and bound: "Suc n \<le> NUM_FINGERS \<longrightarrow> m \<le> NUM_FINGERS"
      and new: "\<And>k. Suc n \<le> k \<Longrightarrow> k < m \<Longrightarrow> k < length ids
                  \<Longrightarrow> ids' ! k = word_of_int (c + 2 + int k)"
      and old: "\<And>k. k < Suc n \<Longrightarrow> ids' ! k = ?ids ! k"
      by simp_all
    have "ids' ! k = word_of_int (c + 2 + int k)" if "n \<le> k" "k < m" "k < length ids" for k
    proof (cases "k = n")
      case True
      then show ?thesis using old [of n] that by simp
    next
      case False
      then show ?thesis using new [of k] that by simp
    qed
    moreover have "ids' ! k = ids ! k" if "k < n" for k
      using old [of k] that by simp
    ultimately show ?thesis
      using len le bound True by simp
  qed
qed

lemma object_table_switch_ids_assigned:
  assumes "t100_ids_assigned s"
  shows "t100_ids_assigned (object_table_switch s c object)"
proof (cases "type_id object = 100")
  case False
  then show ?thesis
    using assms by (simp add: object_table_switch_def t100_ids_assigned_def Let_def)
next
  case True
  obtain m ids' where run: "t100_assign_report_ids c (unat (report_ids_per_instance object)) 0
      (t100_subsequent_report_ids s) = (m, ids')"
    by (cases "t100_assign_report_ids c (unat (report_ids_per_instance object)) 0
      (t100_subsequent_report_ids s)")
  from assms have len: "length (t100_subsequent_report_ids s) = NUM_FINGERS"
    by (simp add: t100_ids_assigned_def)
  from t100_assign_report_ids_result [OF run] len
  have "length ids' = NUM_FINGERS" and m: "m \<le> NUM_FINGERS"
    and "\<And>k. k < m \<Longrightarrow> ids' ! k = word_of_int (c + 2 + int k)"
    by simp_all
  then have "\<forall>k<m. ids' ! k = (word_of_int c :: u16) + 2 + of_nat k"
    by simp
  with \<open>length ids' = NUM_FINGERS\<close> m True run show ?thesis
    by (simp add: object_table_switch_def t100_ids_assigned_def Let_def)
qed

lemma round_ids_assigned:
  assumes "t100_ids_assigned (fst st)"
  shows "t100_ids_assigned (fst (read_object_table_round h st))"
proof -
  obtain s c a io where st: "st = (s, c, a, io)"
    by (cases st)
  show ?thesis
  proof (cases "object_replies io" rule: fails_next_cases)
    case (delivers object rest)
    then show ?thesis
      using assms by (simp add: st round_delivered object_table_switch_ids_assigned)
  next
    case fails
    then show ?thesis
      using assms by (simp add: st round_failed)
  qed
qed

lemma loop_ids_assigned:
  "t100_ids_assigned (fst st) \<Longrightarrow> t100_ids_assigned (fst (read_object_table_loop h n st))"
  by (induction n arbitrary: st) (simp_all add: round_ids_assigned)

lemma read_object_table_ids_assigned:
  assumes "t100_ids_assigned s"
  shows "t100_ids_assigned (fst (read_object_table h s io))"
proof (cases "information_replies io" rule: fails_next_cases)
  case (delivers information rest)
  then show ?thesis
    using assms
      loop_ids_assigned [of "(s, 1, of_nat (sizeof_mxt_information_block h),
        printf (io\<lparr>information_replies := rest,
          trace := trace io @ [Bus_read (MXT_REG_INFORMATION_BLOCK h) Information_block]\<rparr>)
          (Found_MXT information))" h "unat (num_objects information)"]
    by (simp add: read_object_table_def I2C_Read_information_def split_def)
next
  case fails
  then show ?thesis
    using assms by (simp add: read_object_table_header_failed)
qed

lemma initial_statics_ids_assigned: "t100_ids_assigned initial_statics"
  by (simp add: t100_ids_assigned_def initial_statics_def)

section \<open>Properties of read_messages\<close>

lemma update_finger_confidence:
  "confidence (update_finger h event px py f) = (\<not> (event = SUP_tag h \<or> event = DOWNSUP h))"
  by (simp add: update_finger_def Let_def)

lemma update_finger_tip:
  "tip (update_finger h event px py f) =
     (if event = UP h \<or> event = UNSUP h \<or> event = DOWNUP h then False
      else if event = DOWN h then True else tip f)"
  by (simp add: update_finger_def Let_def)

lemma update_finger_position:
  "x (update_finger h event px py f) = (if event \<noteq> UP h then px else x f)"
  "y (update_finger h event px py f) = (if event \<noteq> UP h then py else y f)"
  by (simp_all add: update_finger_def Let_def)

lemma per_finger_range_True_lo:
  assumes "per_finger_range s message = Inr True"
  shows "report_ids_at (t100_subsequent_report_ids s) 0 = Inr (t100_subsequent_report_ids s ! 0)"
  using assms
  by (cases "report_ids_at (t100_subsequent_report_ids s) 0")
     (auto simp: per_finger_range_def dest: report_ids_at_Inr)

lemma handle_message_finger:
  assumes "uint (report_id message) \<noteq> uint (t100_first_report_id s)"
    and "per_finger_range s message = Inr True"
    and "contact_id_of (t100_subsequent_report_ids s ! 0) message = k"
    and "k < length (fingers d)"
  shows "handle_message h s message d =
    Inr (d\<lparr>fingers := (fingers d)
           [k := update_finger h (message_event message) (message_x message)
                   (message_y message) (fingers d ! k)]\<rparr>, [])"
  using assms per_finger_range_True_lo [OF assms(2)]
  by (simp add: handle_message_def per_finger_record_def Let_def)

text \<open>
  Claim C5. For every record that takes the per-finger branch, the finger's confidence
  becomes the negation of "the tag is SUP or DOWNSUP"; a SUP record (the tag being none
  of DOWN, UP, UNSUP, DOWNUP) sets confidence to false and leaves the finger's tip as it
  was before the record.
\<close>

theorem confidence_recomputed:
  assumes "uint (report_id message) \<noteq> uint (t100_first_report_id s)"
    and "per_finger_range s message = Inr True"
    and "contact_id_of (t100_subsequent_report_ids s ! 0) message = k"
    and "k < length (fingers d)"
  shows "\<exists>d'. handle_message h s message d = Inr (d', [])
    \<and> confidence (fingers d' ! k) =
        (\<not> (message_event message = SUP_tag h \<or> message_event message = DOWNSUP h))
    \<and> (message_event message = SUP_tag h \<and> SUP_tag h \<noteq> DOWN h \<and> SUP_tag h \<noteq> UP h
          \<and> SUP_tag h \<noteq> UNSUP h \<and> SUP_tag h \<noteq> DOWNUP h \<longrightarrow>
        confidence (fingers d' ! k) = False \<and> tip (fingers d' ! k) = tip (fingers d ! k))"
  using assms(4)
  by (simp add: handle_message_finger [OF assms] update_finger_confidence update_finger_tip)

lemma I2C_Read_message_delivered:
  assumes "message_replies io = Some message # rest"
  shows "I2C_Read_message io a buffer =
    ((OK, message), io\<lparr>message_replies := rest, trace := trace io @ [Bus_read a Message]\<rparr>)"
  using assms by (simp add: I2C_Read_message_def)

lemma I2C_Read_count_delivered:
  assumes "count_replies io = Some mc # rest"
  shows "I2C_Read_count io a buffer =
    ((OK, mc), io\<lparr>count_replies := rest, trace := trace io @ [Bus_read a Message_count]\<rparr>)"
  using assms by (simp add: I2C_Read_count_def)

text \<open>
  Claim C4. From any state of \<open>NUM_FINGERS\<close> fingers (so also one where every finger is
  inactive), a polling cycle that delivers a DOWN record at (100, 200) for finger \<open>k\<close>
  and then an UP record for the same finger leaves that finger with tip false, confidence
  true and position (100, 200): the UP record clears tip and does not store its position.
\<close>

theorem down_then_up:
  assumes inv: "t100_ids_assigned s" and k: "k < t100_num_reports s"
    and len: "length (fingers d) = NUM_FINGERS"
    and t44: "t44_message_count_address s \<noteq> 0"
    and cnt: "count_replies io = Some mc # cr" "count mc = 2"
    and msgs: "message_replies io = Some m1 # Some m2 # mr"
    and id1: "uint (report_id m1) = uint (t100_subsequent_report_ids s ! 0) + int k"
    and id2: "uint (report_id m2) = uint (t100_subsequent_report_ids s ! 0) + int k"
    and ev1: "message_event m1 = DOWN h" "message_x m1 = 100" "message_y m1 = 200"
    and ev2: "message_event m2 = UP h"
    and tags: "DOWN h \<noteq> UP h" "UP h \<noteq> SUP_tag h" "UP h \<noteq> DOWNSUP h"
  shows "\<exists>d'. fst (read_messages h s io d) = Inr d'
    \<and> fingers d' ! k = \<lparr>confidence = True, tip = False, x = 100, y = 200\<rparr>"
proof -
  from inv k len have kd: "k < length (fingers d)"
    by (simp add: t100_ids_assigned_def)
  let ?f1 = "update_finger h (DOWN h) 100 200 (fingers d ! k)"
  let ?d1 = "d\<lparr>fingers := (fingers d)[k := ?f1]\<rparr>"
  let ?f2 = "update_finger h (UP h) (message_x m2) (message_y m2) ?f1"
  let ?d2 = "?d1\<lparr>fingers := (fingers ?d1)[k := ?f2]\<rparr>"
  have h1: "handle_message h s m1 d = Inr (?d1, [])"
    using handle_message_finger [OF finger_record_classified(2,1,4) [OF inv k id1] kd, of h] ev1
    by simp
  have kd1: "k < length (fingers ?d1)" using kd by simp
  have h2: "handle_message h s m2 ?d1 = Inr (?d2, [])"
    using handle_message_finger [OF finger_record_classified(2,1,4) [OF inv k id2] kd1, of h]
      ev2 kd by simp
  have two: "unat (count mc) = Suc (Suc 0)"
    using cnt(2) by simp
  have run: "fst (read_messages h s io d) = Inr ?d2"
    using t44 by (simp add: read_messages_def I2C_Read_count_delivered [OF cnt(1)] two
        I2C_Read_message_delivered msgs h1 h2)
  have "?f2 = \<lparr>confidence = True, tip = False, x = 100, y = 200\<rparr>"
    using tags by (simp add: update_finger_def Let_def)
  with run kd show ?thesis by simp
qed

theorem confidence_recomputed_witness:
  "uint (report_id (example_message 14 3 50 60)) \<noteq> uint (t100_first_report_id example_resolved)
   \<and> per_finger_range example_resolved (example_message 14 3 50 60) = Inr True
   \<and> message_event (example_message 14 3 50 60) = SUP_tag example_h
   \<and> tip (fingers touching_digitizer ! 2) = True
   \<and> (\<exists>d'. handle_message example_h example_resolved (example_message 14 3 50 60)
               touching_digitizer = Inr (d', [])
          \<and> confidence (fingers d' ! 2) = False \<and> tip (fingers d' ! 2) = True)"
proof -
  let ?m = "example_message 14 3 50 60"
  have a: "uint (report_id ?m) \<noteq> uint (t100_first_report_id example_resolved)"
    by code_simp
  have b: "per_finger_range example_resolved ?m = Inr True"
    by code_simp
  have c: "contact_id_of (t100_subsequent_report_ids example_resolved ! 0) ?m = 2"
    by code_simp
  have d: "2 < length (fingers touching_digitizer)"
    by code_simp
  have e: "message_event ?m = SUP_tag example_h \<and> SUP_tag example_h \<noteq> DOWN example_h
      \<and> SUP_tag example_h \<noteq> UP example_h \<and> SUP_tag example_h \<noteq> UNSUP example_h
      \<and> SUP_tag example_h \<noteq> DOWNUP example_h"
    by code_simp
  have t: "tip (fingers touching_digitizer ! 2) = True"
    by code_simp
  from confidence_recomputed [OF a b c d, of example_h] e t a b show ?thesis
    by blast
qed

lemma example_resolved_ids_assigned: "t100_ids_assigned example_resolved"
  unfolding example_resolved_def
  by (rule read_object_table_ids_assigned) (rule initial_statics_ids_assigned)

theorem down_then_up_witness:
  "t100_ids_assigned example_resolved \<and> 2 < t100_num_reports example_resolved
   \<and> message_event (example_message 14 4 100 200) = DOWN example_h
   \<and> message_event (example_message 14 5 0 0) = UP example_h
   \<and> (\<exists>d'. fst (read_messages example_h example_resolved example_events_i2c
                 inactive_digitizer) = Inr d'
          \<and> fingers d' ! 2 = \<lparr>confidence = True, tip = False, x = 100, y = 200\<rparr>)"
proof -
  let ?m1 = "example_message 14 4 100 200" and ?m2 = "example_message 14 5 0 0"
  have k: "2 < t100_num_reports example_resolved"
    by code_simp
  have len: "length (fingers inactive_digitizer) = NUM_FINGERS"
    by code_simp
  have t44: "t44_message_count_address example_resolved \<noteq> 0"
    by code_simp
  have cnt: "count_replies example_events_i2c = Some \<lparr>count = 2\<rparr> # []"
    "count \<lparr>count = 2\<rparr> = 2"
    by (simp_all add: example_events_i2c_def silent_i2c_def)
  have msgs: "message_replies example_events_i2c = Some ?m1 # Some ?m2 # []"
    by (simp add: example_events_i2c_def silent_i2c_def)
  have id1: "uint (report_id ?m1) = uint (t100_subsequent_report_ids example_resolved ! 0) + int 2"
    and id2: "uint (report_id ?m2) = uint (t100_subsequent_report_ids example_resolved ! 0) + int 2"
    by code_simp+
  have ev1: "message_event ?m1 = DOWN example_h" "message_x ?m1 = 100" "message_y ?m1 = 200"
    and ev2: "message_event ?m2 = UP example_h"
    by code_simp+
  have tags: "DOWN example_h \<noteq> UP example_h" "UP example_h \<noteq> SUP_tag example_h"
    "UP example_h \<noteq> DOWNSUP example_h"
    by code_simp+
  from down_then_up [OF example_resolved_ids_assigned k len t44 cnt msgs id1 id2 ev1 ev2 tags]
  show ?thesis
    using example_resolved_ids_assigned k ev1(1) ev2 by blast
qed



text \<open>
  Claim C9. When no per-finger id is assigned (\<open>t100_num_reports = 0\<close>), a record whose
  id is not the touch capability's first id and is not below
  \<open>t100_subsequent_report_ids[0]\<close> makes the range test read the array at index -1;
  when no touch capability was resolved that element is 0, so this holds for every such
  record. Processing such a record ends in that out-of-bounds read in any case, since the
  diagnostic of the last branch reads the same element. With at least one id assigned
  (and no more than the array holds) the range test is defined for every record.
\<close>

theorem classification_needs_finger_ids:
  assumes "t100_num_reports s = 0"
    and "length (t100_subsequent_report_ids s) = NUM_FINGERS"
    and "uint (report_id message) \<noteq> uint (t100_first_report_id s)"
  shows "(uint (t100_subsequent_report_ids s ! 0) \<le> uint (report_id message) \<longrightarrow>
           per_finger_range s message = Inl (Report_ids_index_out_of_bounds (- 1)))
    \<and> (t100_subsequent_report_ids s ! 0 = 0 \<longrightarrow>
           per_finger_range s message = Inl (Report_ids_index_out_of_bounds (- 1)))
    \<and> handle_message h s message d = Inl (Report_ids_index_out_of_bounds (- 1))
    \<and> (1 \<le> t100_num_reports s' \<and> t100_num_reports s' \<le> length (t100_subsequent_report_ids s')
          \<longrightarrow> (\<exists>b. per_finger_range s' message = Inr b))"
proof -
  have lo: "report_ids_at (t100_subsequent_report_ids s) 0 = Inr (t100_subsequent_report_ids s ! 0)"
    using assms(2) by (simp add: report_ids_at_def NUM_FINGERS_def)
  have hi: "report_ids_at (t100_subsequent_report_ids s) (- 1)
      = Inl (Report_ids_index_out_of_bounds (- 1))"
    by (simp add: report_ids_at_def)
  have range: "per_finger_range s message =
      (if uint (t100_subsequent_report_ids s ! 0) \<le> uint (report_id message)
       then Inl (Report_ids_index_out_of_bounds (- 1)) else Inr False)"
    using assms(1) lo hi by (simp add: per_finger_range_def)
  have unhandled: "unhandled_record s message = Inl (Report_ids_index_out_of_bounds (- 1))"
    using assms(1) lo hi by (simp add: unhandled_record_def)
  have "handle_message h s message d = Inl (Report_ids_index_out_of_bounds (- 1))"
    using assms(3) range unhandled by (simp add: handle_message_def)
  moreover have "\<exists>b. per_finger_range s' message = Inr b"
    if "1 \<le> t100_num_reports s'"
      and "t100_num_reports s' \<le> length (t100_subsequent_report_ids s')"
  proof -
    from that have "0 < length (t100_subsequent_report_ids s')"
      by linarith
    moreover from that
    have "int (t100_num_reports s') - 1 < int (length (t100_subsequent_report_ids s'))"
      and "0 \<le> int (t100_num_reports s') - 1"
      by linarith+
    ultimately show ?thesis
      by (auto simp: per_finger_range_def report_ids_at_def)
  qed
  ultimately show ?thesis
    using range by simp
qed

theorem classification_needs_finger_ids_witness:
  "t100_num_reports initial_statics = 0
   \<and> uint (report_id (example_message 7 4 1 1)) \<noteq> uint (t100_first_report_id initial_statics)
   \<and> per_finger_range initial_statics (example_message 7 4 1 1)
        = Inl (Report_ids_index_out_of_bounds (- 1))
   \<and> handle_message example_h initial_statics (example_message 7 4 1 1) inactive_digitizer
        = Inl (Report_ids_index_out_of_bounds (- 1))
   \<and> (\<exists>b. per_finger_range example_resolved (example_message 7 4 1 1) = Inr b)"
proof -
  let ?m = "example_message 7 4 1 1"
  have n: "t100_num_reports initial_statics = 0"
    and len: "length (t100_subsequent_report_ids initial_statics) = NUM_FINGERS"
    and first: "uint (report_id ?m) \<noteq> uint (t100_first_report_id initial_statics)"
    and zero: "t100_subsequent_report_ids initial_statics ! 0 = 0"
    and other: "1 \<le> t100_num_reports example_resolved \<and> t100_num_reports example_resolved
        \<le> length (t100_subsequent_report_ids example_resolved)"
    by code_simp+
  from classification_needs_finger_ids [OF n len first, of example_h inactive_digitizer
      example_resolved] zero other n first
  show ?thesis by blast
qed










lemma bus_reads_Printed: "bus_reads (map Printed ds) = []"
  by (induction ds) simp_all

lemma I2C_Read_message_trace:
  "trace (snd (I2C_Read_message io a buffer)) = trace io @ [Bus_read a Message]"
  by (simp add: I2C_Read_message_def split_def)

lemma read_messages_loop_reads:
  "\<exists>j\<le>k. bus_reads (trace (snd (read_messages_loop h s k (d, io)))) =
     bus_reads (trace io) @ replicate j (t5_message_processor_address s, Message)"
proof (induction k arbitrary: d io)
  case 0
  show ?case by simp
next
  case (Suc k)
  let ?a = "t5_message_processor_address s"
  obtain status message io' where rd:
    "I2C_Read_message io ?a zero_message = ((status, message), io')"
    by (metis surj_pair)
  then have tr: "trace io' = trace io @ [Bus_read ?a Message]"
    using I2C_Read_message_trace [of io ?a zero_message] by simp
  show ?case
  proof (cases "handle_message h s message d")
    case (Inl e)
    then have "bus_reads (trace (snd (read_messages_loop h s (Suc k) (d, io)))) =
        bus_reads (trace io) @ replicate 1 (?a, Message)"
      by (simp add: rd tr bus_reads_append)
    then show ?thesis
      by (intro exI [of _ 1]) simp
  next
    case (Inr r)
    obtain d1 printed where r: "r = (d1, printed)" by (cases r)
    let ?io = "io'\<lparr>trace := trace io' @ map Printed printed\<rparr>"
    from Suc.IH [of d1 ?io] obtain j where j: "j \<le> k"
      and reads: "bus_reads (trace (snd (read_messages_loop h s k (d1, ?io)))) =
        bus_reads (trace ?io) @ replicate j (?a, Message)"
      by blast
    have "bus_reads (trace ?io) = bus_reads (trace io) @ [(?a, Message)]"
      by (simp add: tr bus_reads_append bus_reads_Printed)
    with reads have "bus_reads (trace (snd (read_messages_loop h s (Suc k) (d, io)))) =
        bus_reads (trace io) @ replicate (Suc j) (?a, Message)"
      by (simp add: rd Inr r)
    with j show ?thesis
      by (intro exI [of _ "Suc j"]) simp
  qed
qed

lemma I2C_Read_count_failed:
  assumes "fails_next (count_replies io)"
  shows "I2C_Read_count io a buffer =
    ((FAILED, buffer), io\<lparr>count_replies := drop 1 (count_replies io),
                          trace := trace io @ [Bus_read a Message_count]\<rparr>)"
  using assms by (simp add: I2C_Read_count_def transfer_fails)

text \<open>
  Claim C8. \<^verbatim>\<open>read_messages\<close> reads the message count once and then at most that many
  event records. With the message-count capability unresolved it does nothing; when the
  count read fails, or the count is zero, it returns the input state unchanged.
\<close>

theorem read_messages_bounded:
  "(t44_message_count_address s = 0 \<longrightarrow> read_messages h s io d = (Inr d, io))
   \<and> (t44_message_count_address s \<noteq> 0 \<and> fails_next (count_replies io) \<longrightarrow>
        fst (read_messages h s io d) = Inr d
        \<and> bus_reads (trace (snd (read_messages h s io d))) =
            bus_reads (trace io) @ [(t44_message_count_address s, Message_count)])
   \<and> (t44_message_count_address s \<noteq> 0 \<and> count_replies io = Some mc # rest \<longrightarrow>
        (\<exists>j\<le>unat (count mc).
           bus_reads (trace (snd (read_messages h s io d))) =
             bus_reads (trace io) @ (t44_message_count_address s, Message_count)
               # replicate j (t5_message_processor_address s, Message))
        \<and> (count mc = 0 \<longrightarrow> fst (read_messages h s io d) = Inr d))"
proof (intro conjI impI)
  assume "t44_message_count_address s = 0"
  then show "read_messages h s io d = (Inr d, io)"
    by (simp add: read_messages_def)
next
  assume a: "t44_message_count_address s \<noteq> 0 \<and> fails_next (count_replies io)"
  then show "fst (read_messages h s io d) = Inr d"
    by (simp add: read_messages_def I2C_Read_count_failed)
  from a show "bus_reads (trace (snd (read_messages h s io d))) =
      bus_reads (trace io) @ [(t44_message_count_address s, Message_count)]"
    by (simp add: read_messages_def I2C_Read_count_failed bus_reads_append)
next
  assume a: "t44_message_count_address s \<noteq> 0 \<and> count_replies io = Some mc # rest"
  let ?io = "io\<lparr>count_replies := rest,
      trace := trace io @ [Bus_read (t44_message_count_address s) Message_count]\<rparr>"
  from a have run: "read_messages h s io d = read_messages_loop h s (unat (count mc)) (d, ?io)"
    by (simp add: read_messages_def I2C_Read_count_delivered)
  from read_messages_loop_reads [of "unat (count mc)" h s d ?io]
  show "\<exists>j\<le>unat (count mc).
      bus_reads (trace (snd (read_messages h s io d))) =
        bus_reads (trace io) @ (t44_message_count_address s, Message_count)
          # replicate j (t5_message_processor_address s, Message)"
    by (simp add: run bus_reads_append)
  show "fst (read_messages h s io d) = Inr d" if "count mc = 0"
    using that by (simp add: run)
qed

theorem read_messages_bounded_witness:
  "t44_message_count_address example_resolved \<noteq> 0
   \<and> count_replies example_events_i2c = Some \<lparr>count = 2\<rparr> # []
   \<and> (\<exists>j\<le>2. bus_reads (trace (snd (read_messages example_h example_resolved
          example_events_i2c inactive_digitizer))) =
          (266, Message_count) # replicate j (0, Message))
   \<and> read_messages example_h initial_statics example_events_i2c inactive_digitizer
       = (Inr inactive_digitizer, example_events_i2c)
   \<and> fst (read_messages example_h example_resolved silent_i2c inactive_digitizer)
       = Inr inactive_digitizer"
proof -
  note claim = read_messages_bounded [of example_resolved example_h example_events_i2c
      inactive_digitizer "\<lparr>count = 2\<rparr>" "[]"]
  note claim0 = read_messages_bounded [of initial_statics example_h example_events_i2c
      inactive_digitizer "\<lparr>count = 2\<rparr>" "[]"]
  note claim1 = read_messages_bounded [of example_resolved example_h silent_i2c
      inactive_digitizer "\<lparr>count = 2\<rparr>" "[]"]
  have t44: "t44_message_count_address example_resolved \<noteq> 0"
    and t44': "t44_message_count_address initial_statics = 0"
    and t5: "t5_message_processor_address example_resolved = 0"
    and a: "t44_message_count_address example_resolved = 266"
    and f: "fails_next (count_replies silent_i2c)"
    by code_simp+
  have cnt: "count_replies example_events_i2c = Some \<lparr>count = 2\<rparr> # []"
    and tr: "trace example_events_i2c = []"
    by (simp_all add: example_events_i2c_def silent_i2c_def)
  from claim t44 cnt have "\<exists>j\<le>unat (count \<lparr>count = 2\<rparr>).
      bus_reads (trace (snd (read_messages example_h example_resolved example_events_i2c
        inactive_digitizer))) =
        bus_reads (trace example_events_i2c) @ (t44_message_count_address example_resolved,
          Message_count) # replicate j (t5_message_processor_address example_resolved, Message)"
    by blast
  then have "\<exists>j\<le>2. bus_reads (trace (snd (read_messages example_h example_resolved
      example_events_i2c inactive_digitizer))) = (266, Message_count) # replicate j (0, Message)"
    by (simp add: tr a t5)
  moreover from claim0 t44' have "read_messages example_h initial_statics example_events_i2c
      inactive_digitizer = (Inr inactive_digitizer, example_events_i2c)"
    by blast
  moreover from claim1 t44 f have "fst (read_messages example_h example_resolved silent_i2c
      inactive_digitizer) = Inr inactive_digitizer"
    by blast
  ultimately show ?thesis
    using t44 cnt by blast
qed

end
